theory Spec2Isabelle
  imports Main "HOL-Library.Sublist" "HOL-Library.AList"
begin

section \<open>uenv-venv: a shallow embedding of \<^verbatim>\<open>src/uenv_venv/cli.py\<close>\<close>

text \<open>
  The program is a command line tool that creates a Python venv on top of an active uenv.
  Its functions read the process environment, resolve paths, query interpreters through
  subprocesses and change the file system. The embedding keeps the source's functions and
  their names; what the operating system and the Python library do is a separate layer
  (strings, \<^verbatim>\<open>pathlib\<close>, the file system, subprocesses), written out below.

  Strings are \<open>string\<close>: lists of 8-bit characters, read as the code points U+0000 to
  U+00FF. Code points beyond that range are outside the model.
\<close>

subsection \<open>Python string operations used by the source\<close>

text \<open>
  \<^verbatim>\<open>s.split(c, n)\<close>: split at the first \<open>n\<close> occurrences of the separator; the result
  is never the empty list. The \<open>[]\<close> branch of the inner case is never taken.
\<close>

fun py_split :: "char \<Rightarrow> nat \<Rightarrow> string \<Rightarrow> string list" where
  "py_split c n [] = [[]]"
| "py_split c n (x # xs) =
     (if x = c \<and> 0 < n then [] # py_split c (n - 1) xs
      else (case py_split c n xs of
              [] \<Rightarrow> [[x]]
            | w # ws \<Rightarrow> (x # w) # ws))"

text \<open>
  Splitting at every character of a class: \<^verbatim>\<open>re.split(r"[ ,]", s)\<close> and
  \<^verbatim>\<open>s.split("/")\<close>. Adjacent separators give empty fields.
\<close>

fun split_where :: "(char \<Rightarrow> bool) \<Rightarrow> string \<Rightarrow> string list" where
  "split_where P [] = [[]]"
| "split_where P (x # xs) =
     (if P x then [] # split_where P xs
      else (case split_where P xs of
              [] \<Rightarrow> [[x]]
            | w # ws \<Rightarrow> (x # w) # ws))"

definition space_or_comma :: "char \<Rightarrow> bool" where
  "space_or_comma x \<longleftrightarrow> x = CHR '' '' \<or> x = CHR '',''"

definition re_split_space_comma :: "string \<Rightarrow> string list" where
  "re_split_space_comma s = split_where space_or_comma s"

text \<open>
  \<^verbatim>\<open>str.isspace\<close> on the code points below 256: tab to carriage return, the four
  separators U+001C to U+001F, space, NEL (U+0085) and the no-break space (U+00A0).
\<close>

definition isspace :: "char \<Rightarrow> bool" where
  "isspace x \<longleftrightarrow> x \<in> {CHR 0x09, CHR 0x0A, CHR 0x0B, CHR 0x0C, CHR 0x0D,
                      CHR 0x1C, CHR 0x1D, CHR 0x1E, CHR 0x1F, CHR 0x20,
                      CHR 0x85, CHR 0xA0}"

definition py_strip :: "string \<Rightarrow> string" where
  "py_strip s = rev (dropWhile isspace (rev (dropWhile isspace s)))"

text \<open>\<^verbatim>\<open>s.rsplit(c, 1)\<close>: split at the last occurrence of the separator, if there is one.\<close>

definition py_rsplit1 :: "char \<Rightarrow> string \<Rightarrow> string list" where
  "py_rsplit1 c s =
     (if c \<in> set s
      then [rev (tl (dropWhile (\<lambda>x. x \<noteq> c) (rev s))), rev (takeWhile (\<lambda>x. x \<noteq> c) (rev s))]
      else [s])"

text \<open>\<^verbatim>\<open>sep.join(xs)\<close>.\<close>

fun py_join :: "string \<Rightarrow> string list \<Rightarrow> string" where
  "py_join sep [] = []"
| "py_join sep [x] = x"
| "py_join sep (x # y # ys) = x @ sep @ py_join sep (y # ys)"

subsection \<open>\<^verbatim>\<open>pathlib\<close> on POSIX\<close>

text \<open>
  A \<^verbatim>\<open>PosixPath\<close> is a root (\<^verbatim>\<open>""\<close>, \<^verbatim>\<open>"/"\<close> or \<^verbatim>\<open>"//"\<close>) and
  the list of its components; empty components and \<^verbatim>\<open>"."\<close> are dropped when the path is
  built, \<^verbatim>\<open>".."\<close> is kept. \<open>splitroot\<close> is \<^verbatim>\<open>posixpath.splitroot\<close>: exactly two leading
  slashes are a root of their own.
\<close>

datatype path = PosixPath (root: string) (parts: "string list")

definition splitroot :: "string \<Rightarrow> string \<times> string" where
  "splitroot p =
     (if take 1 p \<noteq> ''/'' then ([], p)
      else if take 1 (drop 1 p) \<noteq> ''/'' \<or> take 1 (drop 2 p) = ''/'' then (''/'', drop 1 p)
      else (take 2 p, drop 2 p))"

definition Path :: "string \<Rightarrow> path" where
  "Path s =
     (case splitroot s of
        (r, rel) \<Rightarrow>
          PosixPath r (filter (\<lambda>x. x \<noteq> [] \<and> x \<noteq> ''.'') (split_where (\<lambda>c. c = CHR ''/'') rel)))"

text \<open>\<^verbatim>\<open>str(p)\<close>, which on POSIX is also \<^verbatim>\<open>p.as_posix()\<close>.\<close>

definition str :: "path \<Rightarrow> string" where
  "str p = (if root p = [] \<and> parts p = [] then ''.'' else root p @ py_join ''/'' (parts p))"

definition as_posix :: "path \<Rightarrow> string" where
  "as_posix p = str p"

text \<open>\<^verbatim>\<open>posixpath.join(a, b)\<close> and the operator \<^verbatim>\<open>p / s\<close> built on it.\<close>

definition posix_join :: "string \<Rightarrow> string \<Rightarrow> string" where
  "posix_join a b =
     (if take 1 b = ''/'' then b
      else if a = [] \<or> last a = CHR ''/'' then a @ b
      else a @ ''/'' @ b)"

definition joinpath :: "path \<Rightarrow> string \<Rightarrow> path" where
  "joinpath p s = Path (posix_join (str p) s)"

text \<open>\<^verbatim>\<open>p.parent\<close>: the path without its last component; a root or \<^verbatim>\<open>.\<close> is its own parent.\<close>

definition parent :: "path \<Rightarrow> path" where
  "parent p = PosixPath (root p) (butlast (parts p))"

text \<open>
  What \<^verbatim>\<open>pathlib\<close> guarantees of every path it builds: the root is one of the three
  roots and every component is a plain name, not empty, not \<^verbatim>\<open>.\<close> and without a slash.
\<close>

definition plain_name :: "string \<Rightarrow> bool" where
  "plain_name s \<longleftrightarrow> s \<noteq> [] \<and> s \<noteq> ''.'' \<and> CHR ''/'' \<notin> set s"

definition wf_path :: "path \<Rightarrow> bool" where
  "wf_path p \<longleftrightarrow> root p \<in> {[], ''/'', ''//''} \<and> list_all plain_name (parts p)"

subsection \<open>Process environment, diagnostics and failures\<close>

type_synonym environ = "string \<rightharpoonup> string"

text \<open>\<^verbatim>\<open>os.environ.get(k, d)\<close>.\<close>

definition environ_get :: "environ \<Rightarrow> string \<Rightarrow> string \<Rightarrow> string" where
  "environ_get env k d = (case env k of None \<Rightarrow> d | Some v \<Rightarrow> v)"

text \<open>
  Every message the program prints before it exits is one constructor, carrying the values
  the source interpolates into the text.
\<close>

datatype diagnostic =
    PythonpathIsSet string
  | CouldNotDetectUenv
  | CouldNotDetectUenvName
  | MountPointDoesNotExist path
  | CouldNotDetectActiveView
  | PythonNotFound path
  | PythonNotInsideMount path path string
  | CouldNotLocateSitePackages path
  | SitePackagesNotFound path
  | VenvDirNotEmpty path

text \<open>
  The exceptions of the Python library that reach the program. All of them derive from
  \<^verbatim>\<open>Exception\<close>, so an \<^verbatim>\<open>except Exception\<close> clause catches each of them;
  \<^verbatim>\<open>SystemExit\<close> does not, and is a failure of its own.
\<close>

datatype py_exception =
    FileNotFoundError
  | FileExistsError
  | NotADirectoryError
  | IsADirectoryError
  | CalledProcessError int
  | OtherException string

datatype failure =
    SystemExit diagnostic int
  | Raised py_exception

text \<open>\<^verbatim>\<open>_err(msg, code=2)\<close> prints the message to stderr and exits.\<close>

definition err :: "diagnostic \<Rightarrow> failure + 'a" where
  "err msg = Inl (SystemExit msg 2)"

text \<open>
  The exit status of the process: 0 when \<^verbatim>\<open>main\<close> returns, the code of
  \<^verbatim>\<open>sys.exit\<close>, and 1 when an exception is not caught.
\<close>

fun exit_status :: "failure + 'a \<Rightarrow> int" where
  "exit_status (Inr _) = 0"
| "exit_status (Inl (SystemExit _ code)) = code"
| "exit_status (Inl (Raised _)) = 1"

subsection \<open>\<^verbatim>\<open>ensure_no_pythonpath\<close> (lines 18 to 40)\<close>

definition ensure_no_pythonpath :: "environ \<Rightarrow> failure + unit" where
  "ensure_no_pythonpath env =
     (case env ''PYTHONPATH'' of
        None \<Rightarrow> Inr ()
      | Some pp \<Rightarrow> if pp \<noteq> [] then Inl (SystemExit (PythonpathIsSet pp) 2) else Inr ())"

subsection \<open>\<^verbatim>\<open>parse_uenv\<close> (lines 43 to 57)\<close>

text \<open>
  The loop of lines 53 to 56 over the reversed token list: the first token that is not
  empty and contains a colon gives the mount, the text after its last colon.
\<close>

fun mount_of_tokens :: "string list \<Rightarrow> (path \<times> string \<times> string) option" where
  "mount_of_tokens [] = None"
| "mount_of_tokens (token # rest) =
     (if token \<noteq> [] \<and> CHR '':'' \<in> set token
      then Some (Path (last (py_rsplit1 CHR '':'' token)), [], [])
      else mount_of_tokens rest)"

text \<open>Lines 50 to 57, the list-descriptor path, entered when lines 44 to 49 do not return.\<close>

definition parse_uenv_mount_list :: "environ \<Rightarrow> failure + (path \<times> string \<times> string)" where
  "parse_uenv_mount_list env =
     (let uml = environ_get env ''UENV_MOUNT_LIST'' [] in
      case (if uml \<noteq> [] then mount_of_tokens (rev (re_split_space_comma (py_strip uml)))
            else None) of
        Some r \<Rightarrow> Inr r
      | None \<Rightarrow> err CouldNotDetectUenv)"

definition parse_uenv :: "environ \<Rightarrow> failure + (path \<times> string \<times> string)" where
  "parse_uenv env =
     (let uv = environ_get env ''UENV_VIEW'' [] in
      if uv \<noteq> [] then
        (case py_split CHR '':'' 3 uv of
           [mount, name, view] \<Rightarrow> Inr (Path mount, name, view)
         | _ \<Rightarrow> parse_uenv_mount_list env)
      else parse_uenv_mount_list env)"

subsection \<open>The file system\<close>

text \<open>
  The file system is an association list from path strings to nodes. A path is looked up
  by its string as written: symbolic links and the working directory are the business of
  \<^verbatim>\<open>os.path.realpath\<close>, which the model takes from outside (see \<open>world\<close> below).
  A root and the current directory always exist. Permissions are not modelled.
\<close>

datatype node = Dir | File string

type_synonym filesystem = "(string \<times> node) list"

definition stat :: "filesystem \<Rightarrow> path \<Rightarrow> node option" where
  "stat fs p = (if parts p = [] then Some Dir else map_of fs (str p))"

definition exists :: "filesystem \<Rightarrow> path \<Rightarrow> bool" where
  "exists fs p \<longleftrightarrow> stat fs p \<noteq> None"

definition is_dir :: "filesystem \<Rightarrow> path \<Rightarrow> bool" where
  "is_dir fs p \<longleftrightarrow> stat fs p = Some Dir"

definition read_text :: "filesystem \<Rightarrow> path \<Rightarrow> string option" where
  "read_text fs p = (case stat fs p of Some (File content) \<Rightarrow> Some content | _ \<Rightarrow> None)"

text \<open>\<^verbatim>\<open>p.iterdir()\<close>: the entries directly below a directory.\<close>

definition iterdir :: "filesystem \<Rightarrow> path \<Rightarrow> py_exception + path list" where
  "iterdir fs p =
     (case stat fs p of
        None \<Rightarrow> Inl FileNotFoundError
      | Some (File _) \<Rightarrow> Inl NotADirectoryError
      | Some Dir \<Rightarrow>
          Inr (remdups (filter (\<lambda>q. parts q \<noteq> [] \<and> parent q = p) (map (\<lambda>kv. Path (fst kv)) fs))))"

text \<open>\<^verbatim>\<open>shutil.rmtree(p)\<close>: the directory and everything below it disappear.\<close>

definition is_under :: "path \<Rightarrow> path \<Rightarrow> bool" where
  "is_under p q \<longleftrightarrow> root q = root p \<and> prefix (parts p) (parts q)"

definition rmtree :: "filesystem \<Rightarrow> path \<Rightarrow> py_exception + filesystem" where
  "rmtree fs p =
     (case stat fs p of
        None \<Rightarrow> Inl FileNotFoundError
      | Some (File _) \<Rightarrow> Inl NotADirectoryError
      | Some Dir \<Rightarrow> Inr (filter (\<lambda>kv. \<not> is_under p (Path (fst kv))) fs))"

text \<open>
  \<^verbatim>\<open>p.mkdir(parents=True, exist_ok=True)\<close>: the missing directories are made from the
  top down; an existing directory is accepted, a file in the way is an error.
\<close>

fun mkdirs :: "filesystem \<Rightarrow> string \<Rightarrow> string list \<Rightarrow> string list \<Rightarrow> py_exception + filesystem" where
  "mkdirs fs r upper [] = Inr fs"
| "mkdirs fs r upper (x # xs) =
     (let q = PosixPath r (upper @ [x]) in
      case stat fs q of
        Some Dir \<Rightarrow> mkdirs fs r (upper @ [x]) xs
      | Some (File _) \<Rightarrow> Inl (if xs = [] then FileExistsError else NotADirectoryError)
      | None \<Rightarrow> mkdirs (fs @ [(str q, Dir)]) r (upper @ [x]) xs)"

definition mkdir_parents_exist_ok :: "filesystem \<Rightarrow> path \<Rightarrow> py_exception + filesystem" where
  "mkdir_parents_exist_ok fs p = mkdirs fs (root p) [] (parts p)"

text \<open>\<^verbatim>\<open>p.write_text(content)\<close>: the file is created or replaced.\<close>

definition write_text :: "filesystem \<Rightarrow> path \<Rightarrow> string \<Rightarrow> py_exception + filesystem" where
  "write_text fs p content =
     (case stat fs p of
        Some Dir \<Rightarrow> Inl IsADirectoryError
      | _ \<Rightarrow>
         (case stat fs (parent p) of
            None \<Rightarrow> Inl FileNotFoundError
          | Some (File _) \<Rightarrow> Inl NotADirectoryError
          | Some Dir \<Rightarrow> Inr (AList.update (str p) (File content) fs)))"

subsection \<open>What the program takes from outside\<close>

text \<open>
  \<^item> \<open>realpath\<close>: \<^verbatim>\<open>os.path.realpath\<close> as \<^verbatim>\<open>Path.resolve\<close> calls it, or the exception
    it raises;
  \<^item> \<open>which_uv\<close>: \<^verbatim>\<open>shutil.which("uv")\<close>;
  \<^item> \<open>check_output\<close>: \<^verbatim>\<open>subprocess.check_output(cmd).decode()\<close>, the text a command
    prints, or the exception raised. The two commands the program runs this way only print,
    and the model lets them leave the file system as it is;
  \<^item> \<open>json_probe\<close>: \<^verbatim>\<open>json.loads(out)\<close> followed by the reads \<^verbatim>\<open>data["ver"]\<close> and
    \<^verbatim>\<open>data["path"]\<close> of lines 80 to 82: the version text and the entries of
    \<^verbatim>\<open>sys.path\<close>, or the exception raised on the way;
  \<^item> \<open>run\<close>: a command started by \<^verbatim>\<open>subprocess.check_call\<close>: it may change the file
    system in any way, and either cannot be started or ends with a return code.

  Every command gets the process environment (\<^verbatim>\<open>env = os.environ\<close>, line 220), which
  the program never changes; so the environment is not an argument of \<open>run\<close>.
\<close>

datatype sys_path_entry = StrEntry string | NonStrEntry

record world =
  realpath :: "string \<Rightarrow> py_exception + string"
  which_uv :: "string option"
  check_output :: "string list \<Rightarrow> filesystem \<Rightarrow> py_exception + string"
  json_probe :: "string \<Rightarrow> py_exception + string \<times> sys_path_entry list"
  run :: "string list \<Rightarrow> filesystem \<Rightarrow> (py_exception + int) \<times> filesystem"

text \<open>\<^verbatim>\<open>p.resolve()\<close>: the real path, parsed into a path again.\<close>

definition resolve :: "world \<Rightarrow> path \<Rightarrow> py_exception + path" where
  "resolve w p = (case realpath w (str p) of Inl e \<Rightarrow> Inl e | Inr s \<Rightarrow> Inr (Path s))"

text \<open>
  The state of a run: the file system, and the list of the actions by which the program
  itself changes it or lets a command change it, in the order they happen.
\<close>

datatype event =
    Rmtree path
  | Mkdir path
  | WriteText path string
  | CheckCall "string list"

record pstate =
  files :: filesystem
  actions :: "event list"

text \<open>\<^verbatim>\<open>subprocess.check_call(cmd, env=env)\<close>: a return code other than 0 is an exception.\<close>

definition check_call :: "world \<Rightarrow> string list \<Rightarrow> pstate \<Rightarrow> (failure + unit) \<times> pstate" where
  "check_call w cmd s =
     (case run w cmd (files s) of
        (r, fs') \<Rightarrow>
          (let s' = \<lparr>files = fs', actions = actions s @ [CheckCall cmd]\<rparr> in
           case r of
             Inl e \<Rightarrow> (Inl (Raised e), s')
           | Inr rc \<Rightarrow> if rc = 0 then (Inr (), s') else (Inl (Raised (CalledProcessError rc)), s')))"

subsection \<open>\<^verbatim>\<open>py_in_uenv\<close> (lines 60 to 64)\<close>

text \<open>
  The body of the \<^verbatim>\<open>try\<close>: the interpreter is resolved first, then the mount, then the
  strings are compared. \<open>py_in_uenv\<close> is the function with its \<^verbatim>\<open>except Exception\<close>.
\<close>

definition py_in_uenv_body :: "world \<Rightarrow> path \<Rightarrow> path \<Rightarrow> py_exception + bool" where
  "py_in_uenv_body w py mount =
     (case resolve w py of
        Inl e \<Rightarrow> Inl e
      | Inr rpy \<Rightarrow>
         (case resolve w mount of
            Inl e \<Rightarrow> Inl e
          | Inr rmount \<Rightarrow> Inr (prefix (as_posix rmount @ ''/'') (as_posix rpy))))"

definition py_in_uenv :: "world \<Rightarrow> path \<Rightarrow> path \<Rightarrow> bool" where
  "py_in_uenv w py mount =
     (case py_in_uenv_body w py mount of
        Inl e \<Rightarrow> False
      | Inr b \<Rightarrow> b)"

subsection \<open>\<^verbatim>\<open>discover_uenv_site_packages\<close> (lines 67 to 108)\<close>

definition probe_code :: string where
  \<open>probe_code =
     [CHR 0x0A] @ ''import sys, json'' @ [CHR 0x0A] @
     ''pyver = f"{sys.version_info[0]}.{sys.version_info[1]}"'' @ [CHR 0x0A] @
     ''print(json.dumps({"ver": pyver, "path": sys.path}))'' @ [CHR 0x0A]\<close>

text \<open>
  Line 82, the list comprehension: the string entries are resolved in order, and the first
  exception ends the function; entries that are not strings are left out.
\<close>

fun resolve_entries :: "world \<Rightarrow> sys_path_entry list \<Rightarrow> py_exception + path list" where
  "resolve_entries w [] = Inr []"
| "resolve_entries w (NonStrEntry # es) = resolve_entries w es"
| "resolve_entries w (StrEntry p # es) =
     (case resolve w (Path p) of
        Inl e \<Rightarrow> Inl e
      | Inr rp \<Rightarrow>
         (case resolve_entries w es of
            Inl e \<Rightarrow> Inl e
          | Inr rps \<Rightarrow> Inr (rp # rps)))"

text \<open>Line 85, the path before it is resolved.\<close>

definition view_site_packages :: "path \<Rightarrow> string \<Rightarrow> string \<Rightarrow> path" where
  "view_site_packages mount view_name pyver =
     joinpath (joinpath (joinpath (joinpath (joinpath mount ''env'') view_name) ''lib'')
       (''python'' @ pyver)) ''site-packages''"

text \<open>
  The loop of lines 88 to 94: each entry is resolved once more, an entry whose resolution
  raises is skipped, and the first resolved entry that is a directory and whose string
  starts with the string of \<open>want_prefix\<close> is returned.
\<close>

fun scan_sys_path :: "world \<Rightarrow> filesystem \<Rightarrow> path \<Rightarrow> path list \<Rightarrow> path option" where
  "scan_sys_path w fs want_prefix [] = None"
| "scan_sys_path w fs want_prefix (p # ps) =
     (case resolve w p of
        Inl e \<Rightarrow> scan_sys_path w fs want_prefix ps
      | Inr pr \<Rightarrow>
          if is_dir fs pr \<and> prefix (as_posix want_prefix) (as_posix pr) then Some pr
          else scan_sys_path w fs want_prefix ps)"

definition discover_uenv_site_packages ::
    "world \<Rightarrow> filesystem \<Rightarrow> path \<Rightarrow> string \<Rightarrow> path \<Rightarrow> failure + path" where
  "discover_uenv_site_packages w fs mount view_name py =
     (case check_output w [str py, ''-c'', probe_code] fs of
        Inl e \<Rightarrow> Inl (Raised e)
      | Inr out \<Rightarrow>
     (case json_probe w out of
        Inl e \<Rightarrow> Inl (Raised e)
      | Inr (pyver, entries) \<Rightarrow>
     (case resolve_entries w entries of
        Inl e \<Rightarrow> Inl (Raised e)
      | Inr sys_path \<Rightarrow>
     (case resolve w (view_site_packages mount view_name pyver) of
        Inl e \<Rightarrow> Inl (Raised e)
      | Inr want_prefix \<Rightarrow>
     (case scan_sys_path w fs want_prefix sys_path of
        Some pr \<Rightarrow> Inr pr
      | None \<Rightarrow>
          if is_dir fs want_prefix then Inr want_prefix
          else err (CouldNotLocateSitePackages want_prefix))))))"

subsection \<open>\<^verbatim>\<open>venv_site_packages\<close> and \<^verbatim>\<open>_venv_python\<close> (lines 111 to 118)\<close>

definition purelib_code :: string where
  "purelib_code =
     ''import sysconfig;print(sysconfig.get_paths()['' @ [CHR 0x27] @ ''purelib'' @
     [CHR 0x27] @ ''])''"

definition venv_site_packages :: "world \<Rightarrow> filesystem \<Rightarrow> path \<Rightarrow> py_exception + path" where
  "venv_site_packages w fs venv_py =
     (case check_output w [str venv_py, ''-c'', purelib_code] fs of
        Inl e \<Rightarrow> Inl e
      | Inr out \<Rightarrow> Inr (Path (py_strip out)))"

definition venv_python :: "path \<Rightarrow> path" where
  "venv_python target = joinpath target ''bin/python''"

subsection \<open>\<^verbatim>\<open>upgrade_bootstrap\<close>, \<^verbatim>\<open>create_with_uv\<close>, \<^verbatim>\<open>create_with_stdlib\<close> (lines 121 to 163)\<close>

text \<open>The truth value of what \<^verbatim>\<open>shutil.which\<close> returned: a string that is not empty.\<close>

definition found :: "string option \<Rightarrow> bool" where
  "found uv \<longleftrightarrow> (case uv of None \<Rightarrow> False | Some u \<Rightarrow> u \<noteq> [])"

text \<open>
  \<^verbatim>\<open>ensurepip\<close> runs inside \<^verbatim>\<open>try ... except Exception: pass\<close>: what it raises is
  dropped, what it did to the file system stays. The upgrade that follows is not guarded.
\<close>

definition upgrade_bootstrap :: "world \<Rightarrow> path \<Rightarrow> pstate \<Rightarrow> (failure + unit) \<times> pstate" where
  "upgrade_bootstrap w venv_py s =
     (let uv = which_uv w in
      case check_call w [str venv_py, ''-m'', ''ensurepip'', ''--upgrade''] s of
        (Inl (SystemExit d c), s1) \<Rightarrow> (Inl (SystemExit d c), s1)
      | (_, s1) \<Rightarrow>
          if found uv
          then check_call w [the uv, ''pip'', ''install'', ''-p'', str venv_py, ''-U'',
                             ''pip'', ''setuptools'', ''wheel''] s1
          else check_call w [str venv_py, ''-m'', ''pip'', ''install'', ''-U'',
                             ''pip'', ''setuptools'', ''wheel''] s1)"

definition uv_venv_cmd :: "string \<Rightarrow> path \<Rightarrow> path \<Rightarrow> bool \<Rightarrow> string list" where
  "uv_venv_cmd uv target py copies =
     [uv, ''venv'', str target, ''--python'', str py, ''--seed''] @
     (if copies then [''--copies''] else [])"

definition create_with_uv ::
    "world \<Rightarrow> path \<Rightarrow> path \<Rightarrow> bool \<Rightarrow> pstate \<Rightarrow> (failure + unit) \<times> pstate" where
  "create_with_uv w target py copies s =
     (let uv = which_uv w in
      if \<not> found uv then (Inl (Raised FileNotFoundError), s)
      else
        (case check_call w (uv_venv_cmd (the uv) target py copies) s of
           (Inl f, s1) \<Rightarrow> (Inl f, s1)
         | (Inr _, s1) \<Rightarrow> upgrade_bootstrap w (venv_python target) s1))"

definition stdlib_venv_cmd :: "path \<Rightarrow> path \<Rightarrow> bool \<Rightarrow> string list" where
  "stdlib_venv_cmd target py copies =
     [str py, ''-m'', ''venv'', str target] @ (if copies then [''--copies''] else [])"

definition create_with_stdlib ::
    "world \<Rightarrow> path \<Rightarrow> path \<Rightarrow> bool \<Rightarrow> pstate \<Rightarrow> (failure + unit) \<times> pstate" where
  "create_with_stdlib w target py copies s =
     (case check_call w (stdlib_venv_cmd target py copies) s of
        (Inl f, s1) \<Rightarrow> (Inl f, s1)
      | (Inr _, s1) \<Rightarrow> upgrade_bootstrap w (venv_python target) s1)"

subsection \<open>\<^verbatim>\<open>main\<close> (lines 166 to 249)\<close>

text \<open>
  The arguments as \<^verbatim>\<open>argparse\<close> delivers them (lines 167 to 177 are outside the model).
\<close>

record args =
  args_venv :: path
  args_python :: path
  args_force :: bool
  args_copies :: bool

text \<open>The three calls by which the program itself changes the file system.\<close>

definition shutil_rmtree :: "path \<Rightarrow> pstate \<Rightarrow> (failure + unit) \<times> pstate" where
  "shutil_rmtree p s =
     (case rmtree (files s) p of
        Inl e \<Rightarrow> (Inl (Raised e), s\<lparr>actions := actions s @ [Rmtree p]\<rparr>)
      | Inr fs' \<Rightarrow> (Inr (), \<lparr>files = fs', actions = actions s @ [Rmtree p]\<rparr>))"

definition path_mkdir :: "path \<Rightarrow> pstate \<Rightarrow> (failure + unit) \<times> pstate" where
  "path_mkdir p s =
     (case mkdir_parents_exist_ok (files s) p of
        Inl e \<Rightarrow> (Inl (Raised e), s\<lparr>actions := actions s @ [Mkdir p]\<rparr>)
      | Inr fs' \<Rightarrow> (Inr (), \<lparr>files = fs', actions = actions s @ [Mkdir p]\<rparr>))"

definition path_write_text :: "path \<Rightarrow> string \<Rightarrow> pstate \<Rightarrow> (failure + unit) \<times> pstate" where
  "path_write_text p content s =
     (case write_text (files s) p content of
        Inl e \<Rightarrow> (Inl (Raised e), s\<lparr>actions := actions s @ [WriteText p content]\<rparr>)
      | Inr fs' \<Rightarrow> (Inr (), \<lparr>files = fs', actions = actions s @ [WriteText p content]\<rparr>))"

text \<open>
  Lines 179 to 210: everything \<^verbatim>\<open>main\<close> checks before it touches the target directory.
  Nothing here changes the file system. The result is what the rest of \<^verbatim>\<open>main\<close> uses:
  mount, name, view, the resolved interpreter and the uenv's package directory.
\<close>

definition main_gates ::
    "world \<Rightarrow> environ \<Rightarrow> args \<Rightarrow> filesystem
       \<Rightarrow> failure + (path \<times> string \<times> string \<times> path \<times> path)" where
  "main_gates w env a fs =
     (case parse_uenv env of
        Inl f \<Rightarrow> Inl f
      | Inr (mount, name, view) \<Rightarrow>
          if name = [] then err CouldNotDetectUenvName
          else if \<not> is_dir fs mount then err (MountPointDoesNotExist mount)
          else if view = [] then err CouldNotDetectActiveView
          else
            (case resolve w (args_python a) of
               Inl e \<Rightarrow> Inl (Raised e)
             | Inr py \<Rightarrow>
                 if \<not> exists fs py then err (PythonNotFound py)
                 else if \<not> py_in_uenv w py mount then err (PythonNotInsideMount py mount view)
                 else
                   (case discover_uenv_site_packages w fs mount view py of
                      Inl f \<Rightarrow> Inl f
                    | Inr uenv_sp \<Rightarrow>
                        if \<not> is_dir fs uenv_sp then err (SitePackagesNotFound uenv_sp)
                        else
                          (case ensure_no_pythonpath env of
                             Inl f \<Rightarrow> Inl f
                           | Inr _ \<Rightarrow> Inr (mount, name, view, py, uenv_sp)))))"

text \<open>Lines 213 to 217: the target directory is removed, refused or made.\<close>

definition main_prepare :: "args \<Rightarrow> pstate \<Rightarrow> (failure + unit) \<times> pstate" where
  "main_prepare a s =
     (case (if args_force a \<and> exists (files s) (args_venv a)
            then shutil_rmtree (args_venv a) s
            else (Inr (), s)) of
        (Inl f, s1) \<Rightarrow> (Inl f, s1)
      | (Inr _, s1) \<Rightarrow>
         (case (if exists (files s1) (args_venv a)
                then (case iterdir (files s1) (args_venv a) of
                        Inl e \<Rightarrow> Inl (Raised e)
                      | Inr entries \<Rightarrow>
                          if entries \<noteq> [] then err (VenvDirNotEmpty (args_venv a))
                          else Inr ())
                else Inr ()) of
            Inl f \<Rightarrow> (Inl f, s1)
          | Inr _ \<Rightarrow> path_mkdir (args_venv a) s1))"

text \<open>
  Lines 220 to 226: \<^verbatim>\<open>create_with_uv\<close> inside \<^verbatim>\<open>try\<close>, \<^verbatim>\<open>create_with_stdlib\<close> inside
  \<^verbatim>\<open>except Exception\<close>. The result is the value of \<^verbatim>\<open>used\<close>.
\<close>

definition main_create ::
    "world \<Rightarrow> path \<Rightarrow> path \<Rightarrow> bool \<Rightarrow> pstate \<Rightarrow> (failure + string) \<times> pstate" where
  "main_create w target py copies s =
     (case create_with_uv w target py copies s of
        (Inr _, s1) \<Rightarrow> (Inr ''uv'', s1)
      | (Inl (SystemExit d c), s1) \<Rightarrow> (Inl (SystemExit d c), s1)
      | (Inl (Raised e), s1) \<Rightarrow>
         (case create_with_stdlib w target py copies s1 of
            (Inl f, s2) \<Rightarrow> (Inl f, s2)
          | (Inr _, s2) \<Rightarrow> (Inr ''venv'', s2)))"

text \<open>Lines 229 to 234: the venv's package directory is asked for and \<^verbatim>\<open>uenv.pth\<close> written.\<close>

definition main_link :: "world \<Rightarrow> path \<Rightarrow> path \<Rightarrow> pstate \<Rightarrow> (failure + unit) \<times> pstate" where
  "main_link w target uenv_sp s =
     (let vpy = venv_python target in
      case venv_site_packages w (files s) vpy of
        Inl e \<Rightarrow> (Inl (Raised e), s)
      | Inr vsp \<Rightarrow>
          (let pth = joinpath vsp ''uenv.pth'' in
           path_write_text pth (str uenv_sp @ [CHR 0x0A]) s))"

text \<open>
  \<^verbatim>\<open>main\<close> as a whole. The summary printed by lines 237 to 247 is not modelled; the
  result is the return value 0.
\<close>

definition main :: "world \<Rightarrow> environ \<Rightarrow> args \<Rightarrow> pstate \<Rightarrow> (failure + int) \<times> pstate" where
  "main w env a s =
     (case main_gates w env a (files s) of
        Inl f \<Rightarrow> (Inl f, s)
      | Inr (mount, name, view, py, uenv_sp) \<Rightarrow>
     (case main_prepare a s of
        (Inl f, s1) \<Rightarrow> (Inl f, s1)
      | (Inr _, s1) \<Rightarrow>
     (case main_create w (args_venv a) py (args_copies a) s1 of
        (Inl f, s2) \<Rightarrow> (Inl f, s2)
      | (Inr used, s2) \<Rightarrow>
     (case main_link w (args_venv a) uenv_sp s2 of
        (Inl f, s3) \<Rightarrow> (Inl f, s3)
      | (Inr _, s3) \<Rightarrow> (Inr 0, s3)))))"

section \<open>The resolver as the specification words it\<close>


section \<open>Example data\<close>

text \<open>
  The end-to-end scenario of the specification, section 8: the uenv \<^verbatim>\<open>base\<close> is mounted
  at \<^verbatim>\<open>/uenv/base\<close> with the view \<^verbatim>\<open>default\<close>, and the venv goes to
  \<^verbatim>\<open>/work/venv\<close>. There are no symbolic links and the working directory is
  \<^verbatim>\<open>/work\<close>, so an absolute path resolves to itself; \<^verbatim>\<open>uv\<close> is installed, every
  command succeeds, and \<^verbatim>\<open>uv venv\<close> leaves the tree of a venv behind.
\<close>

definition demo_files :: filesystem where
  "demo_files =
     [(''/uenv'', Dir), (''/uenv/base'', Dir), (''/uenv/base/env'', Dir),
      (''/uenv/base/env/default'', Dir), (''/uenv/base/env/default/bin'', Dir),
      (''/uenv/base/env/default/bin/python3.11'', File ''ELF''),
      (''/uenv/base/env/default/lib'', Dir),
      (''/uenv/base/env/default/lib/python3.11'', Dir),
      (''/uenv/base/env/default/lib/python3.11/site-packages'', Dir),
      (''/work'', Dir)]"

definition demo_venv_tree :: filesystem where
  "demo_venv_tree =
     [(''/work/venv/bin'', Dir), (''/work/venv/bin/python'', File ''ELF''),
      (''/work/venv/lib'', Dir), (''/work/venv/lib/python3.11'', Dir),
      (''/work/venv/lib/python3.11/site-packages'', Dir)]"

definition demo_run :: "string list \<Rightarrow> filesystem \<Rightarrow> (py_exception + int) \<times> filesystem" where
  "demo_run cmd fs =
     (if take 2 cmd = [''/usr/bin/uv'', ''venv''] then (Inr 0, fs @ demo_venv_tree)
      else (Inr 0, fs))"

definition demo_realpath :: "string \<Rightarrow> py_exception + string" where
  "demo_realpath s = Inr (if take 1 s = ''/'' then s else ''/work/'' @ s)"

definition demo_world :: world where
  "demo_world =
     \<lparr>realpath = demo_realpath,
      which_uv = Some ''/usr/bin/uv'',
      check_output =
        (\<lambda>cmd fs. if cmd = [''/work/venv/bin/python'', ''-c'', purelib_code]
                   then Inr (''/work/venv/lib/python3.11/site-packages'' @ [CHR 0x0A])
                   else Inr ''{}''),
      json_probe =
        (\<lambda>out. Inr (''3.11'',
                      [StrEntry [], NonStrEntry, StrEntry ''/usr/lib/python3.11'',
                       StrEntry ''/uenv/base/env/default/lib/python3.11/site-packages''])),
      run = demo_run\<rparr>"

definition demo_args :: args where
  "demo_args =
     \<lparr>args_venv = Path ''/work/venv'',
      args_python = Path ''/uenv/base/env/default/bin/python3.11'',
      args_force = False,
      args_copies = False\<rparr>"

definition demo_env :: environ where
  "demo_env = [''UENV_VIEW'' \<mapsto> ''/uenv/base:base:default'']"

definition demo_state :: pstate where
  "demo_state = \<lparr>files = demo_files, actions = []\<rparr>"

text \<open>A world in which resolving one path raises, as a symlink loop does.\<close>

definition loop_world :: world where
  "loop_world =
     demo_world\<lparr>realpath :=
       (\<lambda>s. if s = ''/loop/python'' then Inl (OtherException ''RuntimeError'')
            else demo_realpath s)\<rparr>"

text \<open>
  An environment that has only the list descriptor, and one in which the composite
  descriptor is there but has two fields.
\<close>

definition list_env :: environ where
  "list_env =
     [''UENV_MOUNT_LIST'' \<mapsto>
        ''/store/a.squashfs:/user-environment /store/b.squashfs:/user-tools'']"

definition two_field_env :: environ where
  "two_field_env = list_env(''UENV_VIEW'' \<mapsto> ''/user-environment:default'')"

text \<open>
  The uenv with a second directory beside the view's \<^verbatim>\<open>site-packages\<close>, whose name
  continues that name, and an interpreter that reports it first.
\<close>

definition sibling_files :: filesystem where
  "sibling_files =
     demo_files @ [(''/uenv/base/env/default/lib/python3.11/site-packages-extra'', Dir)]"

definition sibling_world :: world where
  "sibling_world =
     demo_world\<lparr>json_probe :=
       (\<lambda>out. Inr (''3.11'',
          [StrEntry ''/uenv/base/env/default/lib/python3.11/site-packages-extra'',
           StrEntry ''/uenv/base/env/default/lib/python3.11/site-packages'']))\<rparr>"

text \<open>
  A world in which \<^verbatim>\<open>uv venv\<close> succeeds and \<^verbatim>\<open>uv pip install\<close> exits with 1, and
  the state \<^verbatim>\<open>main\<close> has reached when it creates the venv.
\<close>

definition pip_fails_world :: world where
  "pip_fails_world =
     demo_world\<lparr>run :=
       (\<lambda>cmd fs. if take 2 cmd = [''/usr/bin/uv'', ''pip''] then (Inr 1, fs)
                  else demo_run cmd fs)\<rparr>"

definition demo_prepared :: pstate where
  "demo_prepared =
     \<lparr>files = demo_files @ [(''/work/venv'', Dir)], actions = [Mkdir (Path ''/work/venv'')]\<rparr>"

text \<open>The environment of the scenario with \<^verbatim>\<open>PYTHONPATH\<close> set, and set to nothing.\<close>

definition pythonpath_env :: environ where
  "pythonpath_env = demo_env(''PYTHONPATH'' \<mapsto> ''/opt/lib'')"

definition empty_pythonpath_env :: environ where
  "empty_pythonpath_env = demo_env(''PYTHONPATH'' \<mapsto> [])"


definition demo_created :: pstate where
  "demo_created =
     snd (main_create demo_world (Path ''/work/venv'')
            (Path ''/uenv/base/env/default/bin/python3.11'') False demo_prepared)"

definition demo_uenv_sp :: path where
  "demo_uenv_sp = Path ''/uenv/base/env/default/lib/python3.11/site-packages''"

definition demo_linked :: pstate where
  "demo_linked = snd (main_link demo_world (Path ''/work/venv'') demo_uenv_sp demo_created)"


section \<open>Properties\<close>

subsection \<open>Evaluating paths\<close>

lemma Path_str_examples:
  "str (Path ''/base'') = ''/base''"
  "str (Path ''/base/env/x/bin/python'') = ''/base/env/x/bin/python''"
  "str (Path ''/other/bin/python'') = ''/other/bin/python''"
  "str (Path ''/loop/python'') = ''/loop/python''"
  by (simp_all add: Path_def splitroot_def str_def)

subsection \<open>Splitting and stripping\<close>

lemma py_split_not_Nil: "py_split c n s \<noteq> []"
  by (induction s arbitrary: n) (auto split: list.splits)

lemma py_split_no_sep: "c \<notin> set s \<Longrightarrow> py_split c n s = [s]"
  by (induction s) auto

lemma py_split_field:
  "c \<notin> set a \<Longrightarrow> 0 < n \<Longrightarrow> py_split c n (a @ c # rest) = a # py_split c (n - 1) rest"
  by (induction a) auto

lemma length_py_split: "length (py_split c n s) = min n (count_list s c) + 1"
proof (induction s arbitrary: n)
  case Nil
  then show ?case by simp
next
  case (Cons x xs)
  show ?case
  proof (cases "x = c \<and> 0 < n")
    case True
    then obtain k where "n = Suc k" by (cases n) auto
    with True Cons.IH [of k] show ?thesis by simp
  next
    case False
    with Cons.IH [of n] py_split_not_Nil [of c n xs] show ?thesis
      by (cases "py_split c n xs") auto
  qed
qed

lemma split_where_not_Nil: "split_where P s \<noteq> []"
  by (induction s) (auto split: list.splits)

lemma split_where_no_sep: "\<forall>c\<in>set s. \<not> P c \<Longrightarrow> split_where P s = [s]"
  by (induction s) auto

lemma split_where_append:
  assumes "\<forall>c\<in>set ys. \<not> P c"
  shows "split_where P (xs @ ys) = butlast (split_where P xs) @ [last (split_where P xs) @ ys]"
proof (induction xs)
  case Nil
  from assms show ?case by (simp add: split_where_no_sep)
next
  case (Cons x xs)
  obtain w ws where S: "split_where P xs = w # ws"
    using split_where_not_Nil [of P xs] by (cases "split_where P xs") auto
  show ?case
  proof (cases ws)
    case Nil
    with S Cons.IH show ?thesis by simp
  next
    case (Cons v vs)
    with S Cons.IH show ?thesis by simp
  qed
qed

lemma split_where_subset: "\<forall>t\<in>set (split_where P s). set t \<subseteq> set s"
proof (induction s)
  case Nil
  then show ?case by simp
next
  case (Cons x xs)
  then show ?case
    by (cases "split_where P xs") auto
qed

lemma split_where_covers:
  "c \<in> set s \<Longrightarrow> \<not> P c \<Longrightarrow> \<exists>t\<in>set (split_where P s). c \<in> set t"
proof (induction s)
  case Nil
  then show ?case by simp
next
  case (Cons x xs)
  then show ?case
    using split_where_not_Nil [of P xs]
    by (cases "split_where P xs") (auto split: if_splits)
qed

lemma set_py_strip: "set (py_strip s) \<subseteq> set s"
  by (auto simp: py_strip_def dest!: set_dropWhileD)

lemma py_strip_keeps: "c \<in> set s \<Longrightarrow> \<not> isspace c \<Longrightarrow> c \<in> set (py_strip s)"
proof -
  assume c: "c \<in> set s" "\<not> isspace c"
  have keep: "\<And>xs. c \<in> set xs \<Longrightarrow> c \<in> set (dropWhile isspace xs)"
  proof -
    fix xs assume "c \<in> set xs"
    then show "c \<in> set (dropWhile isspace xs)"
      using c(2) by (induction xs) auto
  qed
  from c(1) have "c \<in> set (rev (dropWhile isspace s))" by (simp add: keep)
  then have "c \<in> set (dropWhile isspace (rev (dropWhile isspace s)))" by (rule keep)
  then show ?thesis by (simp add: py_strip_def)
qed

lemma py_strip_last_token:
  assumes d: "\<forall>c\<in>set d. \<not> isspace c" and trail: "\<forall>c\<in>set trail. isspace c"
  shows "py_strip (before @ CHR '':'' # d @ trail) = dropWhile isspace before @ CHR '':'' # d"
proof -
  have colon: "\<not> isspace CHR '':''" by (simp add: isspace_def)
  have front: "dropWhile isspace (before @ CHR '':'' # d @ trail)
                 = dropWhile isspace before @ CHR '':'' # d @ trail"
    using colon by (rule dropWhile_append3)
  have "dropWhile isspace (rev trail @ rev d @ CHR '':'' # rev (dropWhile isspace before))
          = dropWhile isspace (rev d @ CHR '':'' # rev (dropWhile isspace before))"
    by (rule dropWhile_append2) (use trail in auto)
  also have "\<dots> = rev d @ CHR '':'' # rev (dropWhile isspace before)"
    using d colon by (cases "rev d") auto
  finally show ?thesis
    by (simp add: py_strip_def front)
qed

lemma last_py_rsplit1:
  "c \<notin> set d \<Longrightarrow> last (py_rsplit1 c (x @ c # d)) = d"
proof -
  assume "c \<notin> set d"
  then have tw: "takeWhile (\<lambda>x. x \<noteq> c) (rev d) = rev d"
    by (auto simp: takeWhile_eq_all_conv)
  show ?thesis
    by (simp add: py_rsplit1_def takeWhile_tail tw)
qed

subsection \<open>Paths built by \<^verbatim>\<open>pathlib\<close>\<close>

lemma split_where_field:
  "\<forall>c\<in>set a. \<not> P c \<Longrightarrow> P c \<Longrightarrow> split_where P (a @ c # rest) = a # split_where P rest"
  by (induction a) auto

lemma split_where_no_match: "\<forall>t\<in>set (split_where P s). \<forall>c\<in>set t. \<not> P c"
proof (induction s)
  case Nil
  then show ?case by simp
next
  case (Cons x xs)
  then show ?case
    by (cases "split_where P xs") auto
qed

lemma split_at_slash_plain:
  "CHR ''/'' \<notin> set s \<Longrightarrow> split_where (\<lambda>c. c = CHR ''/'') s = [s]"
  by (rule split_where_no_sep) auto

lemma split_at_slash_field:
  "CHR ''/'' \<notin> set a \<Longrightarrow>
     split_where (\<lambda>c. c = CHR ''/'') (a @ CHR ''/'' # rest)
       = a # split_where (\<lambda>c. c = CHR ''/'') rest"
  by (rule split_where_field) auto

lemma py_join_Cons:
  "py_join sep (x # rest) = x @ (if rest = [] then [] else sep @ py_join sep rest)"
  by (cases rest) auto

lemma py_join_snoc: "ps \<noteq> [] \<Longrightarrow> py_join sep (ps @ [x]) = py_join sep ps @ sep @ x"
  by (induction sep ps rule: py_join.induct) auto

lemma py_join_ends: "ps \<noteq> [] \<Longrightarrow> \<exists>pre. py_join sep ps = pre @ last ps"
  by (induction sep ps rule: py_join.induct) auto

lemma split_py_join:
  "list_all plain_name ps \<Longrightarrow> ps \<noteq> [] \<Longrightarrow>
     split_where (\<lambda>c. c = CHR ''/'') (py_join ''/'' ps) = ps"
proof (induction ps)
  case Nil
  then show ?case by simp
next
  case (Cons x xs)
  then have x: "CHR ''/'' \<notin> set x" by (simp add: plain_name_def)
  show ?case
  proof (cases "xs = []")
    case True
    with x show ?thesis by (simp add: split_at_slash_plain)
  next
    case False
    with Cons have "split_where (\<lambda>c. c = CHR ''/'') (py_join ''/'' xs) = xs" by simp
    with x False show ?thesis
      by (simp add: py_join_Cons split_at_slash_field)
  qed
qed

lemma take1_py_join:
  assumes "list_all plain_name ps" "ps \<noteq> []"
  shows "take 1 (py_join ''/'' ps) \<noteq> ''/''"
proof -
  from assms obtain x xs where ps: "ps = x # xs" by (cases ps) auto
  with assms(1) obtain c cs where x: "x = c # cs" "c \<noteq> CHR ''/''"
    by (cases x) (auto simp: plain_name_def)
  with ps show ?thesis by (simp add: py_join_Cons)
qed

lemma splitroot_rooted:
  assumes "r \<in> {[], ''/'', ''//''}" "take 1 rel \<noteq> ''/''"
  shows "splitroot (r @ rel) = (r, rel)"
  using assms by (cases rel) (auto simp: splitroot_def)

lemma Path_of_parts:
  assumes "r \<in> {[], ''/'', ''//''}" "list_all plain_name ps"
  shows "Path (r @ py_join ''/'' ps) = PosixPath r ps"
proof (cases "ps = []")
  case True
  with assms(1) show ?thesis
    by (auto simp: Path_def splitroot_def)
next
  case False
  with assms have "splitroot (r @ py_join ''/'' ps) = (r, py_join ''/'' ps)"
    by (intro splitroot_rooted take1_py_join)
  moreover have "filter (\<lambda>x. x \<noteq> [] \<and> x \<noteq> ''.'') ps = ps"
    using assms(2) by (auto simp: list_all_iff plain_name_def filter_id_conv)
  ultimately show ?thesis
    using assms(2) False by (simp add: Path_def split_py_join)
qed

lemma splitroot_root: "fst (splitroot s) \<in> {[], ''/'', ''//''}"
proof (cases s)
  case Nil
  then show ?thesis by (simp add: splitroot_def)
next
  case (Cons a as)
  then show ?thesis by (cases as) (auto simp: splitroot_def)
qed

lemma wf_path_Path: "wf_path (Path s)"
proof -
  obtain r rel where sr: "splitroot s = (r, rel)" by (cases "splitroot s")
  with splitroot_root [of s] have "r \<in> {[], ''/'', ''//''}" by simp
  moreover have "list_all plain_name
      (filter (\<lambda>x. x \<noteq> [] \<and> x \<noteq> ''.'') (split_where (\<lambda>c. c = CHR ''/'') rel))"
    using split_where_no_match [of "\<lambda>c. c = CHR ''/''" rel]
    by (auto simp: list_all_iff plain_name_def)
  ultimately show ?thesis
    by (simp add: wf_path_def Path_def sr)
qed

lemma Path_str: "wf_path p \<Longrightarrow> Path (str p) = p"
proof (cases p)
  case (PosixPath r ps)
  assume "wf_path p"
  with PosixPath have r: "r \<in> {[], ''/'', ''//''}" and ps: "list_all plain_name ps"
    by (simp_all add: wf_path_def)
  show ?thesis
  proof (cases "r = [] \<and> ps = []")
    case True
    with PosixPath show ?thesis by (simp add: str_def Path_def splitroot_def)
  next
    case False
    with PosixPath have "str p = r @ py_join ''/'' ps" by (simp add: str_def)
    with r ps PosixPath show ?thesis by (simp add: Path_of_parts)
  qed
qed

lemma joinpath_plain:
  assumes "wf_path p" "plain_name s"
  shows "joinpath p s = PosixPath (root p) (parts p @ [s])"
proof -
  from assms(1) have r: "root p \<in> {[], ''/'', ''//''}" and ps: "list_all plain_name (parts p)"
    by (simp_all add: wf_path_def)
  from assms(2) obtain c cs where s: "s = c # cs" "c \<noteq> CHR ''/''" "CHR ''/'' \<notin> set cs"
    by (cases s) (auto simp: plain_name_def)
  have all: "list_all plain_name (parts p @ [s])"
    using ps assms(2) by simp
  have single: "list_all plain_name [s]"
    using assms(2) by simp
  show ?thesis
  proof (cases "parts p = []")
    case True
    show ?thesis
    proof (cases "root p = []")
      case True
      with \<open>parts p = []\<close> have "posix_join (str p) s = ''.'' @ CHR ''/'' # s"
        using s by (simp add: posix_join_def str_def)
      moreover have "split_where (\<lambda>c. c = CHR ''/'') (''.'' @ CHR ''/'' # s) = [''.'', s]"
        using s by (simp add: split_at_slash_field [of "''.''", simplified] split_at_slash_plain)
      ultimately show ?thesis
        using True \<open>parts p = []\<close> assms(2)
        by (simp add: joinpath_def Path_def splitroot_def plain_name_def)
    next
      case False
      with r \<open>parts p = []\<close> have "posix_join (str p) s = root p @ py_join ''/'' [s]"
        using s by (auto simp: posix_join_def str_def)
      with r single \<open>parts p = []\<close> show ?thesis
        by (simp only: joinpath_def Path_of_parts) simp
    qed
  next
    case False
    then have str: "str p = root p @ py_join ''/'' (parts p)"
      by (simp add: str_def)
    from False obtain pre where pre: "py_join ''/'' (parts p) = pre @ last (parts p)"
      using py_join_ends by blast
    from False ps have lp: "last (parts p) \<noteq> []" "CHR ''/'' \<notin> set (last (parts p))"
      by (auto simp: list_all_iff plain_name_def)
    have "last (last (parts p)) \<noteq> CHR ''/''"
      using lp by (metis last_in_set)
    with lp(1) have "last (pre @ last (parts p)) \<noteq> CHR ''/''"
      by simp
    with pre lp have "py_join ''/'' (parts p) \<noteq> []" "last (py_join ''/'' (parts p)) \<noteq> CHR ''/''"
      by auto
    then have "posix_join (str p) s = root p @ py_join ''/'' (parts p @ [s])"
      using s False by (simp add: posix_join_def str py_join_snoc)
    with r all show ?thesis
      by (simp only: joinpath_def Path_of_parts)
  qed
qed

lemma wf_path_joinpath: "wf_path (joinpath p s)"
  by (simp add: joinpath_def wf_path_Path)

lemma str_snoc:
  "ps \<noteq> [] \<Longrightarrow> str (PosixPath r (ps @ [x])) = str (PosixPath r ps) @ ''/'' @ x"
  by (simp add: str_def py_join_snoc)

lemma view_site_packages_string:
  assumes "wf_path mount" "parts mount \<noteq> []" "plain_name view_name" "CHR ''/'' \<notin> set pyver"
  shows "str (view_site_packages mount view_name pyver)
           = str mount @ ''/env/'' @ view_name @ ''/lib/python'' @ pyver @ ''/site-packages''"
proof -
  define pn where "pn = ''python'' @ pyver"
  have py: "plain_name pn"
    using assms(4) by (simp add: plain_name_def pn_def)
  have names: "plain_name ''env''" "plain_name ''lib''" "plain_name ''site-packages''"
    by (simp_all add: plain_name_def)
  have j1: "joinpath mount ''env'' = PosixPath (root mount) (parts mount @ [''env''])"
    using assms(1) names(1) by (rule joinpath_plain)
  have j2: "joinpath (joinpath mount ''env'') view_name
              = PosixPath (root mount) (parts mount @ [''env'', view_name])"
    using joinpath_plain [OF wf_path_joinpath assms(3), of mount "''env''"] by (simp add: j1)
  have j3: "joinpath (joinpath (joinpath mount ''env'') view_name) ''lib''
              = PosixPath (root mount) (parts mount @ [''env'', view_name, ''lib''])"
    using joinpath_plain [OF wf_path_joinpath names(2), of "joinpath mount ''env''" view_name]
    by (simp add: j2)
  have j4: "joinpath (joinpath (joinpath (joinpath mount ''env'') view_name) ''lib'') pn
              = PosixPath (root mount) (parts mount @ [''env'', view_name, ''lib'', pn])"
    using joinpath_plain [OF wf_path_joinpath py,
        of "joinpath (joinpath mount ''env'') view_name" "''lib''"]
    by (simp add: j3)
  have j5: "joinpath (joinpath (joinpath (joinpath (joinpath mount ''env'') view_name) ''lib'')
                pn) ''site-packages''
              = PosixPath (root mount)
                  (parts mount @ [''env'', view_name, ''lib'', pn, ''site-packages''])"
    using joinpath_plain [OF wf_path_joinpath names(3),
        of "joinpath (joinpath (joinpath mount ''env'') view_name) ''lib''" pn]
    by (simp add: j4)
  have "str (PosixPath (root mount)
          (parts mount @ [''env'', view_name, ''lib'', pn, ''site-packages'']))
        = str (PosixPath (root mount) (parts mount)) @ ''/env/'' @ view_name @ ''/lib/'' @ pn
            @ ''/site-packages''"
    using assms(2)
      str_snoc [of "parts mount" "root mount" "''env''"]
      str_snoc [of "parts mount @ [''env'']" "root mount" view_name]
      str_snoc [of "parts mount @ [''env'', view_name]" "root mount" "''lib''"]
      str_snoc [of "parts mount @ [''env'', view_name, ''lib'']" "root mount" pn]
      str_snoc [of "parts mount @ [''env'', view_name, ''lib'', pn]" "root mount"
        "''site-packages''"]
    by simp
  then have "str (view_site_packages mount view_name pyver)
        = str mount @ ''/env/'' @ view_name @ ''/lib/'' @ pn @ ''/site-packages''"
    unfolding view_site_packages_def pn_def [symmetric] by (simp add: j5)
  then show ?thesis by (simp add: pn_def)
qed

subsection \<open>The provenance check\<close>

text \<open>
  Claim C1. \<open>py_in_uenv\<close> is true exactly when both paths resolve and the string of the
  resolved interpreter starts with the string of the resolved mount followed by \<^verbatim>\<open>/\<close>.
  When either resolution raises, the answer is \<open>False\<close>; the function has a value for
  every input, it never raises.
\<close>

theorem py_in_uenv_resolved_prefix:
  "(py_in_uenv w py mount \<longleftrightarrow>
      (\<exists>rpy rmount. resolve w py = Inr rpy \<and> resolve w mount = Inr rmount \<and>
         prefix (as_posix rmount @ ''/'') (as_posix rpy))) \<and>
   ((\<exists>e. resolve w py = Inl e) \<or> (\<exists>e. resolve w mount = Inl e) \<longrightarrow>
      \<not> py_in_uenv w py mount)"
  by (auto simp: py_in_uenv_def py_in_uenv_body_def split: sum.splits)

theorem py_in_uenv_resolved_prefix_witness:
  "\<not> py_in_uenv loop_world (Path ''/loop/python'') (Path ''/base'') \<and>
   py_in_uenv loop_world (Path ''/base/env/x/bin/python'') (Path ''/base'') \<and>
   \<not> py_in_uenv loop_world (Path ''/other/bin/python'') (Path ''/base'')"
proof -
  have raises: "resolve loop_world (Path ''/loop/python'') = Inl (OtherException ''RuntimeError'')"
    by (simp add: resolve_def loop_world_def Path_str_examples)
  have mount: "resolve loop_world (Path ''/base'') = Inr (Path ''/base'')"
    by (simp add: resolve_def loop_world_def demo_realpath_def Path_str_examples)
  have inside:
    "resolve loop_world (Path ''/base/env/x/bin/python'') = Inr (Path ''/base/env/x/bin/python'')"
    by (simp add: resolve_def loop_world_def demo_realpath_def Path_str_examples)
  have outside:
    "resolve loop_world (Path ''/other/bin/python'') = Inr (Path ''/other/bin/python'')"
    by (simp add: resolve_def loop_world_def demo_realpath_def Path_str_examples)
  from raises py_in_uenv_resolved_prefix [of loop_world "Path ''/loop/python''" "Path ''/base''"]
  have a: "\<not> py_in_uenv loop_world (Path ''/loop/python'') (Path ''/base'')"
    by blast
  from py_in_uenv_resolved_prefix [of loop_world "Path ''/base/env/x/bin/python''" "Path ''/base''"]
  have b: "py_in_uenv loop_world (Path ''/base/env/x/bin/python'') (Path ''/base'')"
    by (simp add: mount inside as_posix_def Path_str_examples)
  from py_in_uenv_resolved_prefix [of loop_world "Path ''/other/bin/python''" "Path ''/base''"]
  have c: "\<not> py_in_uenv loop_world (Path ''/other/bin/python'') (Path ''/base'')"
    by (simp add: mount outside as_posix_def Path_str_examples)
  from a b c show ?thesis by blast
qed

subsection \<open>The descriptor parser\<close>

lemma py_split_three_fields:
  assumes "CHR '':'' \<notin> set m" "CHR '':'' \<notin> set n" "CHR '':'' \<notin> set v"
  shows "py_split CHR '':'' 3 (m @ CHR '':'' # n @ CHR '':'' # v) = [m, n, v]"
  using assms by (simp add: py_split_field py_split_no_sep)

lemma three_fields_case:
  "length xs \<noteq> 3 \<Longrightarrow> (case xs of [a, b, c] \<Rightarrow> f a b c | _ \<Rightarrow> g) = g"
  by (auto split: list.splits)

lemma parse_uenv_falls_through:
  "count_list (environ_get env ''UENV_VIEW'' []) CHR '':'' \<noteq> 2 \<Longrightarrow>
     parse_uenv env = parse_uenv_mount_list env"
  by (simp add: parse_uenv_def Let_def three_fields_case length_py_split)

lemma mount_of_tokens_name_view:
  "mount_of_tokens ts = Some (p, name, view) \<Longrightarrow> name = [] \<and> view = []"
  by (induction ts) (auto split: if_splits)

lemma mount_of_tokens_None: "mount_of_tokens ts = None \<longleftrightarrow> (\<forall>t\<in>set ts. CHR '':'' \<notin> set t)"
  by (induction ts) auto

lemma mount_list_tokens_None:
  "mount_of_tokens (rev (re_split_space_comma (py_strip uml))) = None \<longleftrightarrow> CHR '':'' \<notin> set uml"
proof
  assume none: "mount_of_tokens (rev (re_split_space_comma (py_strip uml))) = None"
  show "CHR '':'' \<notin> set uml"
  proof
    assume "CHR '':'' \<in> set uml"
    then have "CHR '':'' \<in> set (py_strip uml)"
      by (rule py_strip_keeps) (simp add: isspace_def)
    then have "\<exists>t\<in>set (split_where space_or_comma (py_strip uml)). CHR '':'' \<in> set t"
      by (rule split_where_covers) (simp add: space_or_comma_def)
    with none show False
      by (simp add: mount_of_tokens_None re_split_space_comma_def)
  qed
next
  assume "CHR '':'' \<notin> set uml"
  then have "\<forall>t\<in>set (split_where space_or_comma (py_strip uml)). CHR '':'' \<notin> set t"
    using split_where_subset [of space_or_comma "py_strip uml"] set_py_strip [of uml] by blast
  then show "mount_of_tokens (rev (re_split_space_comma (py_strip uml))) = None"
    by (simp add: mount_of_tokens_None re_split_space_comma_def)
qed

lemma mount_list_last_token:
  assumes d: "\<forall>c\<in>set d. c \<noteq> CHR '':'' \<and> \<not> space_or_comma c \<and> \<not> isspace c"
    and trail: "\<forall>c\<in>set trail. isspace c"
  shows "mount_of_tokens (rev (re_split_space_comma (py_strip (before @ CHR '':'' # d @ trail))))
           = Some (Path d, [], [])"
proof -
  let ?b = "dropWhile isspace before"
  let ?toks = "split_where space_or_comma (?b @ CHR '':'' # d)"
  have strip: "py_strip (before @ CHR '':'' # d @ trail) = ?b @ CHR '':'' # d"
    using d trail by (simp add: py_strip_last_token)
  have "\<forall>c\<in>set (CHR '':'' # d). \<not> space_or_comma c"
    using d by (simp add: space_or_comma_def)
  then have toks: "?toks = butlast (split_where space_or_comma ?b)
                           @ [last (split_where space_or_comma ?b) @ CHR '':'' # d]"
    by (rule split_where_append)
  have "CHR '':'' \<notin> set d" using d by auto
  then show ?thesis
    by (simp add: strip re_split_space_comma_def toks last_py_rsplit1)
qed

text \<open>
  Claim C5. A composite descriptor \<^verbatim>\<open>m:n:v\<close> whose fields hold no colon is parsed into
  the mount built from \<open>m\<close>, the name \<open>n\<close> and the view \<open>v\<close> (the fields may even be
  empty). A value of \<^verbatim>\<open>UENV_VIEW\<close> that does not have exactly two colons, that is
  exactly three fields, and an absent one, are handed to the list-descriptor path.
\<close>

theorem parse_uenv_composite:
  "(env ''UENV_VIEW'' = Some (m @ '':'' @ n @ '':'' @ v) \<and>
      CHR '':'' \<notin> set m \<and> CHR '':'' \<notin> set n \<and> CHR '':'' \<notin> set v \<longrightarrow>
        parse_uenv env = Inr (Path m, n, v)) \<and>
   (count_list (environ_get env ''UENV_VIEW'' []) CHR '':'' \<noteq> 2 \<longrightarrow>
        parse_uenv env = parse_uenv_mount_list env)"
proof (intro conjI impI)
  assume a: "env ''UENV_VIEW'' = Some (m @ '':'' @ n @ '':'' @ v) \<and>
      CHR '':'' \<notin> set m \<and> CHR '':'' \<notin> set n \<and> CHR '':'' \<notin> set v"
  then have "py_split CHR '':'' 3 (m @ CHR '':'' # n @ CHR '':'' # v) = [m, n, v]"
    by (simp add: py_split_three_fields)
  with a show "parse_uenv env = Inr (Path m, n, v)"
    by (simp add: parse_uenv_def environ_get_def)
next
  assume "count_list (environ_get env ''UENV_VIEW'' []) CHR '':'' \<noteq> 2"
  then show "parse_uenv env = parse_uenv_mount_list env"
    by (rule parse_uenv_falls_through)
qed


theorem parse_uenv_composite_witness:
  "parse_uenv demo_env = Inr (Path ''/uenv/base'', ''base'', ''default'') \<and>
   parse_uenv two_field_env = parse_uenv_mount_list two_field_env"
proof -
  have "demo_env ''UENV_VIEW'' = Some (''/uenv/base'' @ '':'' @ ''base'' @ '':'' @ ''default'')"
    by (simp add: demo_env_def)
  with parse_uenv_composite [of demo_env "''/uenv/base''" "''base''" "''default''"]
  have a: "parse_uenv demo_env = Inr (Path ''/uenv/base'', ''base'', ''default'')"
    by simp
  have "count_list (environ_get two_field_env ''UENV_VIEW'' []) CHR '':'' \<noteq> 2"
    by (simp add: two_field_env_def environ_get_def)
  with parse_uenv_composite [of two_field_env]
  have b: "parse_uenv two_field_env = parse_uenv_mount_list two_field_env"
    by blast
  from a b show ?thesis by blast
qed

lemma parse_uenv_mount_list_Inl:
  "parse_uenv_mount_list env = Inl f \<longleftrightarrow>
     f = SystemExit CouldNotDetectUenv 2 \<and> CHR '':'' \<notin> set (environ_get env ''UENV_MOUNT_LIST'' [])"
proof (cases "environ_get env ''UENV_MOUNT_LIST'' [] = []")
  case True
  then show ?thesis
    by (auto simp: parse_uenv_mount_list_def err_def)
next
  case False
  then show ?thesis
    using mount_list_tokens_None [of "environ_get env ''UENV_MOUNT_LIST'' []"]
    by (auto simp: parse_uenv_mount_list_def err_def split: option.splits)
qed

lemma parse_uenv_mount_list_Inr:
  "parse_uenv_mount_list env = Inr (mount, name, view) \<Longrightarrow> name = [] \<and> view = []"
  by (auto simp: parse_uenv_mount_list_def err_def Let_def
           split: option.splits if_splits dest: mount_of_tokens_name_view)

text \<open>
  Claim C6. The list-descriptor path is entered when \<^verbatim>\<open>UENV_VIEW\<close> is absent or does
  not have three fields. Let the value of \<^verbatim>\<open>UENV_MOUNT_LIST\<close> end in a token
  \<^verbatim>\<open>image:d\<close>: it is \<open>before\<close>, a colon, \<open>d\<close> and trailing white space, where
  \<open>before\<close> is anything (the earlier tokens, their separators and the image of the last
  token) and the mount \<open>d\<close> holds no colon, comma or white space. Then the parser returns
  the mount built from \<open>d\<close> with name and view empty. And on this path the parser fails,
  with the exit of \<^verbatim>\<open>_err\<close>, exactly when the list has no token with a colon.
\<close>

theorem parse_uenv_list_descriptor:
  "(count_list (environ_get env ''UENV_VIEW'' []) CHR '':'' \<noteq> 2 \<and>
      env ''UENV_MOUNT_LIST'' = Some (before @ '':'' @ d @ trail) \<and>
      (\<forall>c\<in>set d. c \<noteq> CHR '':'' \<and> c \<noteq> CHR '','' \<and> \<not> isspace c) \<and>
      (\<forall>c\<in>set trail. isspace c) \<longrightarrow>
        parse_uenv env = Inr (Path d, [], [])) \<and>
   (count_list (environ_get env ''UENV_VIEW'' []) CHR '':'' \<noteq> 2 \<longrightarrow>
      (parse_uenv env = Inl (SystemExit CouldNotDetectUenv 2) \<longleftrightarrow>
         CHR '':'' \<notin> set (environ_get env ''UENV_MOUNT_LIST'' [])))"
proof (intro conjI impI)
  assume a: "count_list (environ_get env ''UENV_VIEW'' []) CHR '':'' \<noteq> 2 \<and>
      env ''UENV_MOUNT_LIST'' = Some (before @ '':'' @ d @ trail) \<and>
      (\<forall>c\<in>set d. c \<noteq> CHR '':'' \<and> c \<noteq> CHR '','' \<and> \<not> isspace c) \<and>
      (\<forall>c\<in>set trail. isspace c)"
  then have fall: "parse_uenv env = parse_uenv_mount_list env"
    by (simp add: parse_uenv_falls_through)
  from a have uml: "environ_get env ''UENV_MOUNT_LIST'' [] = before @ CHR '':'' # d @ trail"
    by (simp add: environ_get_def)
  from a have d: "\<forall>c\<in>set d. c \<noteq> CHR '':'' \<and> \<not> space_or_comma c \<and> \<not> isspace c"
    by (auto simp: space_or_comma_def isspace_def)
  from a have "mount_of_tokens (rev (re_split_space_comma (py_strip (before @ CHR '':'' # d @ trail))))
                 = Some (Path d, [], [])"
    by (intro mount_list_last_token d) simp
  then show "parse_uenv env = Inr (Path d, [], [])"
    by (simp add: fall parse_uenv_mount_list_def uml)
next
  assume "count_list (environ_get env ''UENV_VIEW'' []) CHR '':'' \<noteq> 2"
  then have "parse_uenv env = parse_uenv_mount_list env"
    by (rule parse_uenv_falls_through)
  then show "parse_uenv env = Inl (SystemExit CouldNotDetectUenv 2) \<longleftrightarrow>
         CHR '':'' \<notin> set (environ_get env ''UENV_MOUNT_LIST'' [])"
    by (simp add: parse_uenv_mount_list_Inl)
qed

theorem parse_uenv_list_descriptor_witness:
  "parse_uenv list_env = Inr (Path ''/user-tools'', [], []) \<and>
   parse_uenv Map.empty = Inl (SystemExit CouldNotDetectUenv 2)"
proof -
  have view: "count_list (environ_get list_env ''UENV_VIEW'' []) CHR '':'' \<noteq> 2"
    by (simp add: list_env_def environ_get_def)
  have uml: "list_env ''UENV_MOUNT_LIST'' =
      Some (''/store/a.squashfs:/user-environment /store/b.squashfs'' @ '':'' @ ''/user-tools'' @ [])"
    by (simp add: list_env_def)
  have d: "\<forall>c\<in>set ''/user-tools''. c \<noteq> CHR '':'' \<and> c \<noteq> CHR '','' \<and> \<not> isspace c"
    by (simp add: isspace_def)
  from view uml d
    parse_uenv_list_descriptor [of list_env "''/store/a.squashfs:/user-environment /store/b.squashfs''"
      "''/user-tools''" "[]"]
  have a: "parse_uenv list_env = Inr (Path ''/user-tools'', [], [])"
    by simp
  have "count_list (environ_get Map.empty ''UENV_VIEW'' []) CHR '':'' \<noteq> 2"
    by (simp add: environ_get_def)
  with parse_uenv_list_descriptor [of Map.empty]
  have b: "parse_uenv Map.empty = Inl (SystemExit CouldNotDetectUenv 2)"
    by (simp add: environ_get_def)
  from a b show ?thesis by blast
qed

subsection \<open>Runs that start from the list descriptor\<close>

text \<open>
  Claim C7. When the composite descriptor is absent or does not have three fields, the
  parser takes the list-descriptor path and \<^verbatim>\<open>main\<close> exits with code 2 in the state
  it started in, so before the venv directory is touched: either the list gives no mount
  and \<^verbatim>\<open>parse_uenv\<close> exits, or it gives one with an empty name and \<^verbatim>\<open>main\<close> exits at
  its first check.
\<close>

theorem list_descriptor_run_aborts:
  "count_list (environ_get env ''UENV_VIEW'' []) CHR '':'' \<noteq> 2 \<Longrightarrow>
     parse_uenv env = parse_uenv_mount_list env \<and>
     main w env a s =
       (if CHR '':'' \<in> set (environ_get env ''UENV_MOUNT_LIST'' [])
        then Inl (SystemExit CouldNotDetectUenvName 2)
        else Inl (SystemExit CouldNotDetectUenv 2), s) \<and>
     exit_status (fst (main w env a s)) = 2"
proof -
  assume view: "count_list (environ_get env ''UENV_VIEW'' []) CHR '':'' \<noteq> 2"
  then have fall: "parse_uenv env = parse_uenv_mount_list env"
    by (rule parse_uenv_falls_through)
  have run: "main w env a s =
       (if CHR '':'' \<in> set (environ_get env ''UENV_MOUNT_LIST'' [])
        then Inl (SystemExit CouldNotDetectUenvName 2)
        else Inl (SystemExit CouldNotDetectUenv 2), s)"
  proof (cases "parse_uenv_mount_list env")
    case (Inl f)
    then have "f = SystemExit CouldNotDetectUenv 2"
      and "CHR '':'' \<notin> set (environ_get env ''UENV_MOUNT_LIST'' [])"
      by (simp_all add: parse_uenv_mount_list_Inl)
    then show ?thesis
      by (simp add: main_def main_gates_def fall Inl)
  next
    case (Inr r)
    obtain mount name view where r: "r = (mount, name, view)"
      by (cases r)
    with Inr have "name = []"
      by (auto dest: parse_uenv_mount_list_Inr)
    moreover from Inr have "CHR '':'' \<in> set (environ_get env ''UENV_MOUNT_LIST'' [])"
      using parse_uenv_mount_list_Inl [of env "SystemExit CouldNotDetectUenv 2"] by auto
    ultimately show ?thesis
      using Inr r by (simp add: main_def main_gates_def fall err_def)
  qed
  from fall run show ?thesis by simp
qed

theorem list_descriptor_run_aborts_witness:
  "main demo_world list_env demo_args demo_state =
     (Inl (SystemExit CouldNotDetectUenvName 2), demo_state) \<and>
   exit_status (fst (main demo_world list_env demo_args demo_state)) = 2"
proof -
  have view: "count_list (environ_get list_env ''UENV_VIEW'' []) CHR '':'' \<noteq> 2"
    by (simp add: list_env_def environ_get_def)
  have "CHR '':'' \<in> set (environ_get list_env ''UENV_MOUNT_LIST'' [])"
    by (simp add: list_env_def environ_get_def)
  with list_descriptor_run_aborts [OF view, of demo_world demo_args demo_state]
  show ?thesis by simp
qed

subsection \<open>The view package-directory resolver\<close>




text \<open>
  Claim C10. The test of line 93 compares strings and knows nothing of path components:
  a directory \<^verbatim>\<open>site-packages-extra\<close> beside the view's \<^verbatim>\<open>site-packages\<close>, reported
  first by the interpreter, is accepted and returned as the view's package directory. The
  provenance check appends \<^verbatim>\<open>/\<close> to the mount before it compares, and so rejects an
  interpreter under \<^verbatim>\<open>/uenv/base-extra\<close> for the mount \<^verbatim>\<open>/uenv/base\<close>.
\<close>

theorem discover_accepts_sibling_directory:
  "discover_uenv_site_packages sibling_world sibling_files (Path ''/uenv/base'') ''default''
       (Path ''/uenv/base/env/default/bin/python3.11'')
     = Inr (Path ''/uenv/base/env/default/lib/python3.11/site-packages-extra'') \<and>
   is_dir sibling_files (Path ''/uenv/base/env/default/lib/python3.11/site-packages'') \<and>
   \<not> py_in_uenv sibling_world (Path ''/uenv/base-extra/bin/python'') (Path ''/uenv/base'')"
  by code_simp

subsection \<open>Creating the venv\<close>

lemma check_call_failure: "check_call w cmd s = (Inl f, s') \<Longrightarrow> \<exists>e. f = Raised e"
  by (auto simp: check_call_def Let_def split: prod.splits sum.splits if_splits)

lemma actions_check_call: "actions (snd (check_call w cmd s)) = actions s @ [CheckCall cmd]"
  by (auto simp: check_call_def Let_def split: prod.splits sum.splits)

lemma upgrade_bootstrap_failure:
  "upgrade_bootstrap w venv_py s = (Inl f, s') \<Longrightarrow> \<exists>e. f = Raised e"
  by (auto simp: upgrade_bootstrap_def Let_def split: prod.splits sum.splits failure.splits if_splits
           dest: check_call_failure)

lemma actions_upgrade_bootstrap:
  "prefix (actions s) (actions (snd (upgrade_bootstrap w venv_py s)))"
proof -
  obtain r s1 where c: "check_call w [str venv_py, ''-m'', ''ensurepip'', ''--upgrade''] s = (r, s1)"
    by (cases "check_call w [str venv_py, ''-m'', ''ensurepip'', ''--upgrade''] s")
  then have s1: "actions s1 = actions s @ [CheckCall [str venv_py, ''-m'', ''ensurepip'', ''--upgrade'']]"
    using actions_check_call [of w "[str venv_py, ''-m'', ''ensurepip'', ''--upgrade'']" s] by simp
  have "\<not> (\<exists>d c. r = Inl (SystemExit d c))"
    using c check_call_failure [of w _ s _ s1] by (cases r) auto
  then have "\<exists>cmd. upgrade_bootstrap w venv_py s = check_call w cmd s1"
    using c by (auto simp: upgrade_bootstrap_def Let_def split: sum.splits failure.splits)
  then obtain cmd where "upgrade_bootstrap w venv_py s = check_call w cmd s1" ..
  then show ?thesis
    by (simp add: actions_check_call s1 prefix_def)
qed

lemma create_with_uv_failure:
  "create_with_uv w target py copies s = (Inl f, s') \<Longrightarrow> \<exists>e. f = Raised e"
  by (auto simp: create_with_uv_def Let_def split: prod.splits sum.splits if_splits
           dest: check_call_failure upgrade_bootstrap_failure)

lemma actions_create_with_stdlib:
  "CheckCall (stdlib_venv_cmd target py copies)
     \<in> set (actions (snd (create_with_stdlib w target py copies s)))"
proof -
  obtain r s1 where c: "check_call w (stdlib_venv_cmd target py copies) s = (r, s1)"
    by (cases "check_call w (stdlib_venv_cmd target py copies) s")
  then have s1: "CheckCall (stdlib_venv_cmd target py copies) \<in> set (actions s1)"
    using actions_check_call [of w "stdlib_venv_cmd target py copies" s] by simp
  show ?thesis
  proof (cases r)
    case (Inl f)
    with c s1 show ?thesis by (simp add: create_with_stdlib_def)
  next
    case (Inr u)
    with c have "create_with_stdlib w target py copies s = upgrade_bootstrap w (venv_python target) s1"
      by (simp add: create_with_stdlib_def)
    with s1 actions_upgrade_bootstrap [of s1 w "venv_python target"] show ?thesis
      by (auto simp: prefix_def)
  qed
qed

text \<open>
  Claim C3, as the code has it. \<^verbatim>\<open>create_with_uv\<close> runs the bootstrap upgrade itself
  (line 155), inside the \<^verbatim>\<open>try\<close> of \<^verbatim>\<open>main\<close>. So whatever makes
  \<^verbatim>\<open>create_with_uv\<close> fail, the upgrade step after a successful \<^verbatim>\<open>uv venv\<close> included,
  \<^verbatim>\<open>main\<close> goes on with \<^verbatim>\<open>create_with_stdlib\<close> in the state left behind, and the
  stdlib command is run. A failure of \<^verbatim>\<open>create_with_stdlib\<close>, the upgrade step after a
  successful \<^verbatim>\<open>python -m venv\<close> included, is the failure of \<^verbatim>\<open>main\<close>.
\<close>

theorem create_falls_back_on_any_uv_failure:
  "(create_with_uv w target py copies s = (Inl f, s1) \<longrightarrow>
      main_create w target py copies s =
        (case create_with_stdlib w target py copies s1 of
           (Inl g, s2) \<Rightarrow> (Inl g, s2)
         | (Inr u, s2) \<Rightarrow> (Inr ''venv'', s2)) \<and>
      CheckCall (stdlib_venv_cmd target py copies)
        \<in> set (actions (snd (main_create w target py copies s)))) \<and>
   (found (which_uv w) \<and>
    check_call w (uv_venv_cmd (the (which_uv w)) target py copies) s = (Inr (), s0) \<and>
    upgrade_bootstrap w (venv_python target) s0 = (Inl f, s1) \<longrightarrow>
      create_with_uv w target py copies s = (Inl f, s1)) \<and>
   (check_call w (stdlib_venv_cmd target py copies) s1 = (Inr (), s1') \<and>
    upgrade_bootstrap w (venv_python target) s1' = (Inl g, s2) \<longrightarrow>
      create_with_stdlib w target py copies s1 = (Inl g, s2))"
proof (intro conjI impI)
  assume uv: "create_with_uv w target py copies s = (Inl f, s1)"
  then obtain e where f: "f = Raised e"
    by (auto dest: create_with_uv_failure)
  with uv show run: "main_create w target py copies s =
        (case create_with_stdlib w target py copies s1 of
           (Inl g, s2) \<Rightarrow> (Inl g, s2)
         | (Inr u, s2) \<Rightarrow> (Inr ''venv'', s2))"
    by (simp add: main_create_def split: prod.splits sum.splits)
  have "snd (main_create w target py copies s) = snd (create_with_stdlib w target py copies s1)"
    unfolding run by (simp split: prod.splits sum.splits)
  then show "CheckCall (stdlib_venv_cmd target py copies)
        \<in> set (actions (snd (main_create w target py copies s)))"
    by (simp add: actions_create_with_stdlib)
next
  assume "found (which_uv w) \<and>
    check_call w (uv_venv_cmd (the (which_uv w)) target py copies) s = (Inr (), s0) \<and>
    upgrade_bootstrap w (venv_python target) s0 = (Inl f, s1)"
  then show "create_with_uv w target py copies s = (Inl f, s1)"
    by (simp add: create_with_uv_def)
next
  assume "check_call w (stdlib_venv_cmd target py copies) s1 = (Inr (), s1') \<and>
    upgrade_bootstrap w (venv_python target) s1' = (Inl g, s2)"
  then show "create_with_stdlib w target py copies s1 = (Inl g, s2)"
    by (simp add: create_with_stdlib_def)
qed

theorem create_falls_back_on_any_uv_failure_witness:
  "fst (main_create pip_fails_world (Path ''/work/venv'')
          (Path ''/uenv/base/env/default/bin/python3.11'') False demo_prepared)
     = Inl (Raised (CalledProcessError 1)) \<and>
   CheckCall (stdlib_venv_cmd (Path ''/work/venv'')
                (Path ''/uenv/base/env/default/bin/python3.11'') False)
     \<in> set (actions (snd (main_create pip_fails_world (Path ''/work/venv'')
                (Path ''/uenv/base/env/default/bin/python3.11'') False demo_prepared)))"
proof -
  let ?t = "Path ''/work/venv''" and ?py = "Path ''/uenv/base/env/default/bin/python3.11''"
  let ?s1 = "snd (create_with_uv pip_fails_world ?t ?py False demo_prepared)"
  have "fst (create_with_uv pip_fails_world ?t ?py False demo_prepared)
          = Inl (Raised (CalledProcessError 1))"
    by code_simp
  then have uv: "create_with_uv pip_fails_world ?t ?py False demo_prepared
                   = (Inl (Raised (CalledProcessError 1)), ?s1)"
    by (simp add: prod_eq_iff)
  have std: "fst (create_with_stdlib pip_fails_world ?t ?py False ?s1)
               = Inl (Raised (CalledProcessError 1))"
    by code_simp
  from uv create_falls_back_on_any_uv_failure
         [of pip_fails_world ?t ?py False demo_prepared "Raised (CalledProcessError 1)" ?s1]
  have run: "main_create pip_fails_world ?t ?py False demo_prepared =
        (case create_with_stdlib pip_fails_world ?t ?py False ?s1 of
           (Inl g, s2) \<Rightarrow> (Inl g, s2)
         | (Inr u, s2) \<Rightarrow> (Inr ''venv'', s2))"
    and mem: "CheckCall (stdlib_venv_cmd ?t ?py False)
        \<in> set (actions (snd (main_create pip_fails_world ?t ?py False demo_prepared)))"
    by blast+
  from std obtain s2 where
    "create_with_stdlib pip_fails_world ?t ?py False ?s1 = (Inl (Raised (CalledProcessError 1)), s2)"
    by (cases "create_with_stdlib pip_fails_world ?t ?py False ?s1") auto
  then have "fst (main_create pip_fails_world ?t ?py False demo_prepared)
               = Inl (Raised (CalledProcessError 1))"
    by (simp add: run)
  with mem show ?thesis by blast
qed

text \<open>
  The claim as it was stated fails: in \<open>pip_fails_world\<close> the command \<^verbatim>\<open>uv venv\<close>
  succeeds, the upgrade step that follows fails, and the run goes on to
  \<^verbatim>\<open>python -m venv\<close>.
\<close>

theorem bootstrap_failure_after_uv_triggers_stdlib:
  "fst (check_call pip_fails_world
          (uv_venv_cmd ''/usr/bin/uv'' (Path ''/work/venv'')
             (Path ''/uenv/base/env/default/bin/python3.11'') False) demo_prepared) = Inr () \<and>
   fst (upgrade_bootstrap pip_fails_world (venv_python (Path ''/work/venv''))
          (snd (check_call pip_fails_world
                  (uv_venv_cmd ''/usr/bin/uv'' (Path ''/work/venv'')
                     (Path ''/uenv/base/env/default/bin/python3.11'') False) demo_prepared)))
     = Inl (Raised (CalledProcessError 1)) \<and>
   actions (snd (main pip_fails_world demo_env demo_args demo_state)) =
     [Mkdir (Path ''/work/venv''),
      CheckCall [''/usr/bin/uv'', ''venv'', ''/work/venv'', ''--python'',
                 ''/uenv/base/env/default/bin/python3.11'', ''--seed''],
      CheckCall [''/work/venv/bin/python'', ''-m'', ''ensurepip'', ''--upgrade''],
      CheckCall [''/usr/bin/uv'', ''pip'', ''install'', ''-p'', ''/work/venv/bin/python'', ''-U'',
                 ''pip'', ''setuptools'', ''wheel''],
      CheckCall [''/uenv/base/env/default/bin/python3.11'', ''-m'', ''venv'', ''/work/venv''],
      CheckCall [''/work/venv/bin/python'', ''-m'', ''ensurepip'', ''--upgrade''],
      CheckCall [''/usr/bin/uv'', ''pip'', ''install'', ''-p'', ''/work/venv/bin/python'', ''-U'',
                 ''pip'', ''setuptools'', ''wheel'']]"
  by code_simp

subsection \<open>The checks of \<^verbatim>\<open>main\<close> before the target directory\<close>

lemma parse_uenv_failure: "parse_uenv env = Inl f \<Longrightarrow> f = SystemExit CouldNotDetectUenv 2"
  by (auto simp: parse_uenv_def Let_def parse_uenv_mount_list_Inl
           split: if_splits list.splits)

lemma discover_failure:
  "discover_uenv_site_packages w fs mount view_name py = Inl f \<Longrightarrow>
     (\<exists>d. f = SystemExit d 2) \<or> (\<exists>e. f = Raised e)"
  by (auto simp: discover_uenv_site_packages_def err_def
           split: sum.splits prod.splits option.splits if_splits)

lemma ensure_no_pythonpath_set:
  "env ''PYTHONPATH'' = Some pp \<Longrightarrow> pp \<noteq> [] \<Longrightarrow>
     ensure_no_pythonpath env = Inl (SystemExit (PythonpathIsSet pp) 2)"
  by (simp add: ensure_no_pythonpath_def)

lemma main_gates_failure:
  "main_gates w env a fs = Inl f \<Longrightarrow> (\<exists>d. f = SystemExit d 2) \<or> (\<exists>e. f = Raised e)"
  by (auto simp: main_gates_def err_def ensure_no_pythonpath_def
           split: sum.splits prod.splits if_splits option.splits
           dest: parse_uenv_failure discover_failure)

lemma main_gates_pythonpath:
  assumes "env ''PYTHONPATH'' = Some pp" "pp \<noteq> []"
  shows "\<exists>f. main_gates w env a fs = Inl f"
  using assms
  by (auto simp: main_gates_def err_def ensure_no_pythonpath_def
           split: sum.splits prod.splits if_splits)

lemma parse_uenv_mount_list_without_pythonpath:
  "parse_uenv_mount_list (env(''PYTHONPATH'' := x)) = parse_uenv_mount_list env"
  by (simp add: parse_uenv_mount_list_def environ_get_def)

lemma parse_uenv_without_pythonpath:
  "parse_uenv (env(''PYTHONPATH'' := x)) = parse_uenv env"
  unfolding parse_uenv_def parse_uenv_mount_list_without_pythonpath
  by (simp add: environ_get_def)

lemma main_gates_reach_pythonpath:
  assumes "env ''PYTHONPATH'' = Some pp" "pp \<noteq> []"
    and "main_gates w (env(''PYTHONPATH'' := None)) a fs = Inr r"
  shows "main_gates w env a fs = Inl (SystemExit (PythonpathIsSet pp) 2)"
  using assms
  by (auto simp: main_gates_def err_def ensure_no_pythonpath_def parse_uenv_without_pythonpath
           split: sum.splits prod.splits if_splits)

text \<open>
  Claim C4, as the code has it. Line 20 tests the truth value of the variable, so the
  precondition is a value of \<^verbatim>\<open>PYTHONPATH\<close> that is not empty. With such a value the
  run ends in the state it started in: no directory is removed, made or written and no
  command of the venv creation is run. It ends with exit code 2, from whichever check
  fails first, unless resolving the interpreter or asking it for its search path raised an
  exception before, which then ends the run. When every other check passes (the run
  without the variable gets through lines 179 to 210), the exit is the one of
  \<^verbatim>\<open>ensure_no_pythonpath\<close>.
\<close>

theorem pythonpath_aborts_before_mutation:
  assumes "env ''PYTHONPATH'' = Some pp" and "pp \<noteq> []"
  shows "snd (main w env a s) = s \<and>
         ((\<exists>d. fst (main w env a s) = Inl (SystemExit d 2)) \<or>
          (\<exists>e. fst (main w env a s) = Inl (Raised e))) \<and>
         (\<forall>r. main_gates w (env(''PYTHONPATH'' := None)) a (files s) = Inr r \<longrightarrow>
              main w env a s = (Inl (SystemExit (PythonpathIsSet pp) 2), s))"
proof -
  from assms obtain f where f: "main_gates w env a (files s) = Inl f"
    using main_gates_pythonpath by blast
  then have run: "main w env a s = (Inl f, s)"
    by (simp add: main_def)
  from f have "(\<exists>d. f = SystemExit d 2) \<or> (\<exists>e. f = Raised e)"
    by (rule main_gates_failure)
  moreover have "\<forall>r. main_gates w (env(''PYTHONPATH'' := None)) a (files s) = Inr r \<longrightarrow>
              main w env a s = (Inl (SystemExit (PythonpathIsSet pp) 2), s)"
    using main_gates_reach_pythonpath [of env pp w a "files s"] assms by (simp add: main_def)
  ultimately show ?thesis
    by (simp add: run)
qed

theorem pythonpath_aborts_before_mutation_witness:
  "main demo_world pythonpath_env demo_args demo_state
     = (Inl (SystemExit (PythonpathIsSet ''/opt/lib'') 2), demo_state)"
proof -
  have set: "pythonpath_env ''PYTHONPATH'' = Some ''/opt/lib''" and ne: "''/opt/lib'' \<noteq> []"
    by (simp_all add: pythonpath_env_def)
  have "pythonpath_env(''PYTHONPATH'' := None) = demo_env"
    by (auto simp: pythonpath_env_def demo_env_def)
  moreover have "main_gates demo_world demo_env demo_args (files demo_state)
      = Inr (Path ''/uenv/base'', ''base'', ''default'',
             Path ''/uenv/base/env/default/bin/python3.11'',
             Path ''/uenv/base/env/default/lib/python3.11/site-packages'')"
    by code_simp
  ultimately show ?thesis
    using set ne
      pythonpath_aborts_before_mutation
        [of pythonpath_env "''/opt/lib''" demo_world demo_args demo_state]
    by auto
qed

text \<open>
  The claim as it was stated fails for a variable that is present and empty: the run of the
  scenario succeeds and creates the venv.
\<close>

theorem empty_pythonpath_is_accepted:
  "empty_pythonpath_env ''PYTHONPATH'' = Some [] \<and>
   fst (main demo_world empty_pythonpath_env demo_args demo_state) = Inr 0 \<and>
   actions (snd (main demo_world empty_pythonpath_env demo_args demo_state)) \<noteq> [] \<and>
   files (snd (main demo_world empty_pythonpath_env demo_args demo_state)) \<noteq> demo_files"
  by code_simp

subsection \<open>The target directory\<close>
















subsection \<open>The path-injection file\<close>

lemma write_text_read_text: "write_text fs p c = Inr fs' \<Longrightarrow> read_text fs' p = Some c"
  by (auto simp: write_text_def read_text_def stat_def update_conv'
           split: option.splits node.splits if_splits)

lemma str_parent_neq:
  assumes "wf_path p" "parts p \<noteq> []"
  shows "str (parent p) \<noteq> str p"
proof -
  obtain ps x where "parts p = ps @ [x]"
    using assms(2) by (cases "parts p" rule: rev_cases) auto
  then obtain r where p: "p = PosixPath r (ps @ [x])"
    by (cases p) auto
  with assms(1) have x: "x \<noteq> []" "x \<noteq> ''.''"
    by (simp_all add: wf_path_def plain_name_def)
  show ?thesis
  proof (cases "ps = []")
    case True
    with p x show ?thesis by (auto simp: str_def parent_def)
  next
    case False
    with p x show ?thesis by (simp add: str_def parent_def py_join_snoc)
  qed
qed

lemma write_text_twice:
  assumes "write_text fs p c = Inr fs'" "wf_path p"
  shows "write_text fs' p c = Inr fs'"
proof -
  from assms(1) have nd: "stat fs p \<noteq> Some Dir" and par: "stat fs (parent p) = Some Dir"
    and fs': "fs' = AList.update (str p) (File c) fs"
    by (auto simp: write_text_def split: option.splits node.splits)
  from nd have parts: "parts p \<noteq> []"
    by (auto simp: stat_def)
  then have written: "map_of fs' (str p) = Some (File c)"
    by (simp add: fs' update_conv')
  from assms(2) parts have "str (parent p) \<noteq> str p"
    by (rule str_parent_neq)
  with par have par': "stat fs' (parent p) = Some Dir"
    by (auto simp: stat_def fs' update_conv' split: if_splits)
  from written have "AList.update (str p) (File c) fs' = fs'"
    by (rule update_triv)
  with parts written par' show ?thesis
    by (simp add: write_text_def stat_def)
qed

lemma take1_str_Path: "take 1 r = ''/'' \<Longrightarrow> take 1 (str (Path r)) = ''/''"
  by (cases r) (auto simp: Path_def splitroot_def str_def)

lemma scan_sys_path_resolved:
  "scan_sys_path w fs want ps = Some pr \<Longrightarrow> \<exists>q. resolve w q = Inr pr"
  by (induction ps) (auto split: sum.splits if_splits)

lemma discover_result_resolved:
  "discover_uenv_site_packages w fs mount view_name py = Inr p \<Longrightarrow> \<exists>q. resolve w q = Inr p"
  by (auto simp: discover_uenv_site_packages_def err_def
           split: sum.splits prod.splits option.splits if_splits
           dest: scan_sys_path_resolved)

lemma resolve_absolute:
  assumes "\<forall>t r. realpath w t = Inr r \<longrightarrow> take 1 r = ''/''" "resolve w q = Inr p"
  shows "take 1 (str p) = ''/''"
proof -
  from assms(2) obtain r where r: "realpath w (str q) = Inr r" and p: "p = Path r"
    by (auto simp: resolve_def split: sum.splits)
  from assms(1) r have "take 1 r = ''/''" by blast
  then show ?thesis
    unfolding p by (rule take1_str_Path)
qed

lemma main_gates_discover:
  "main_gates w env a fs = Inr (mount, name, view, py, uenv_sp) \<Longrightarrow>
     discover_uenv_site_packages w fs mount view py = Inr uenv_sp"
  by (auto simp: main_gates_def err_def split: sum.splits prod.splits if_splits)

lemma main_link_success:
  assumes "main_link w target uenv_sp s = (Inr (), s')"
  shows "\<exists>vsp. venv_site_packages w (files s) (venv_python target) = Inr vsp \<and>
           write_text (files s) (joinpath vsp ''uenv.pth'') (str uenv_sp @ [CHR 0x0A])
             = Inr (files s')"
  using assms
  by (auto simp: main_link_def Let_def path_write_text_def split: sum.splits)

lemma main_success:
  assumes "main w env a s = (Inr 0, s')"
  shows "\<exists>mount name view py uenv_sp s2.
           main_gates w env a (files s) = Inr (mount, name, view, py, uenv_sp) \<and>
           main_link w (args_venv a) uenv_sp s2 = (Inr (), s')"
  using assms
  by (auto simp: main_def split: sum.splits prod.splits)

text \<open>
  Claim C9. When lines 229 to 234 succeed, the file \<^verbatim>\<open>uenv.pth\<close> in the directory the
  venv's interpreter reported holds exactly the string of \<open>uenv_sp\<close> and a newline; and
  when the interpreter reports the same directory again, running these lines a second time
  succeeds and leaves every file as it is. In a run of \<^verbatim>\<open>main\<close> that succeeds,
  \<open>uenv_sp\<close> is the directory \<^verbatim>\<open>discover_uenv_site_packages\<close> returned, a resolved
  path, and its string is absolute when \<^verbatim>\<open>realpath\<close> gives absolute strings.
\<close>

theorem uenv_pth_content:
  "(main_link w target uenv_sp s = (Inr (), s') \<longrightarrow>
      (\<exists>vsp. venv_site_packages w (files s) (venv_python target) = Inr vsp \<and>
         read_text (files s') (joinpath vsp ''uenv.pth'') = Some (str uenv_sp @ [CHR 0x0A]) \<and>
         (venv_site_packages w (files s') (venv_python target) = Inr vsp \<longrightarrow>
            fst (main_link w target uenv_sp s') = Inr () \<and>
            files (snd (main_link w target uenv_sp s')) = files s'))) \<and>
   (main w env a s = (Inr 0, s') \<longrightarrow>
      (\<exists>mount name view py sp vsp.
         main_gates w env a (files s) = Inr (mount, name, view, py, sp) \<and>
         discover_uenv_site_packages w (files s) mount view py = Inr sp \<and>
         read_text (files s') (joinpath vsp ''uenv.pth'') = Some (str sp @ [CHR 0x0A]) \<and>
         ((\<forall>t r. realpath w t = Inr r \<longrightarrow> take 1 r = ''/'') \<longrightarrow> take 1 (str sp) = ''/'')))"
proof (intro conjI impI)
  assume "main_link w target uenv_sp s = (Inr (), s')"
  then obtain vsp where vsp: "venv_site_packages w (files s) (venv_python target) = Inr vsp"
    and wr: "write_text (files s) (joinpath vsp ''uenv.pth'') (str uenv_sp @ [CHR 0x0A])
               = Inr (files s')"
    using main_link_success by blast
  from wr have rd: "read_text (files s') (joinpath vsp ''uenv.pth'')
                      = Some (str uenv_sp @ [CHR 0x0A])"
    by (rule write_text_read_text)
  from wr have again: "write_text (files s') (joinpath vsp ''uenv.pth'') (str uenv_sp @ [CHR 0x0A])
               = Inr (files s')"
    by (rule write_text_twice) (rule wf_path_joinpath)
  have "venv_site_packages w (files s') (venv_python target) = Inr vsp \<longrightarrow>
            fst (main_link w target uenv_sp s') = Inr () \<and>
            files (snd (main_link w target uenv_sp s')) = files s'"
    using again by (simp add: main_link_def Let_def path_write_text_def)
  with vsp rd show "\<exists>vsp. venv_site_packages w (files s) (venv_python target) = Inr vsp \<and>
         read_text (files s') (joinpath vsp ''uenv.pth'') = Some (str uenv_sp @ [CHR 0x0A]) \<and>
         (venv_site_packages w (files s') (venv_python target) = Inr vsp \<longrightarrow>
            fst (main_link w target uenv_sp s') = Inr () \<and>
            files (snd (main_link w target uenv_sp s')) = files s')"
    by blast
next
  assume "main w env a s = (Inr 0, s')"
  then obtain mount name view py sp s2 where
    gates: "main_gates w env a (files s) = Inr (mount, name, view, py, sp)"
    and link: "main_link w (args_venv a) sp s2 = (Inr (), s')"
    using main_success by blast
  from gates have disc: "discover_uenv_site_packages w (files s) mount view py = Inr sp"
    by (rule main_gates_discover)
  from link obtain vsp where
    wr: "write_text (files s2) (joinpath vsp ''uenv.pth'') (str sp @ [CHR 0x0A]) = Inr (files s')"
    using main_link_success by blast
  then have rd: "read_text (files s') (joinpath vsp ''uenv.pth'') = Some (str sp @ [CHR 0x0A])"
    by (rule write_text_read_text)
  have "(\<forall>t r. realpath w t = Inr r \<longrightarrow> take 1 r = ''/'') \<longrightarrow> take 1 (str sp) = ''/''"
    using discover_result_resolved [OF disc] resolve_absolute by blast
  with gates disc rd show "\<exists>mount name view py sp vsp.
         main_gates w env a (files s) = Inr (mount, name, view, py, sp) \<and>
         discover_uenv_site_packages w (files s) mount view py = Inr sp \<and>
         read_text (files s') (joinpath vsp ''uenv.pth'') = Some (str sp @ [CHR 0x0A]) \<and>
         ((\<forall>t r. realpath w t = Inr r \<longrightarrow> take 1 r = ''/'') \<longrightarrow> take 1 (str sp) = ''/'')"
    by blast
qed


theorem uenv_pth_content_witness:
  "read_text (files demo_linked) (Path ''/work/venv/lib/python3.11/site-packages/uenv.pth'')
     = Some (''/uenv/base/env/default/lib/python3.11/site-packages'' @ [CHR 0x0A]) \<and>
   files (snd (main_link demo_world (Path ''/work/venv'') demo_uenv_sp demo_linked))
     = files demo_linked \<and>
   (\<exists>vsp. read_text (files (snd (main demo_world demo_env demo_args demo_state)))
            (joinpath vsp ''uenv.pth'')
          = Some (''/uenv/base/env/default/lib/python3.11/site-packages'' @ [CHR 0x0A])) \<and>
   take 1 (str demo_uenv_sp) = ''/''"
proof -
  let ?t = "Path ''/work/venv''"
  let ?vsp = "Path ''/work/venv/lib/python3.11/site-packages''"
  have "fst (main_link demo_world ?t demo_uenv_sp demo_created) = Inr ()"
    by code_simp
  then have link: "main_link demo_world ?t demo_uenv_sp demo_created = (Inr (), demo_linked)"
    by (simp add: prod_eq_iff demo_linked_def)
  have v: "venv_site_packages demo_world (files demo_created) (venv_python ?t) = Inr ?vsp"
    and v': "venv_site_packages demo_world (files demo_linked) (venv_python ?t) = Inr ?vsp"
    by code_simp+
  have pth: "joinpath ?vsp ''uenv.pth'' = Path ''/work/venv/lib/python3.11/site-packages/uenv.pth''"
    and sp: "str demo_uenv_sp = ''/uenv/base/env/default/lib/python3.11/site-packages''"
    by code_simp+
  from link v v'
    uenv_pth_content [where w = demo_world and target = ?t and uenv_sp = demo_uenv_sp
      and s = demo_created and s' = demo_linked]
  have a: "read_text (files demo_linked) (joinpath ?vsp ''uenv.pth'')
             = Some (str demo_uenv_sp @ [CHR 0x0A])"
    and b: "files (snd (main_link demo_world ?t demo_uenv_sp demo_linked)) = files demo_linked"
    by auto
  let ?end = "snd (main demo_world demo_env demo_args demo_state)"
  have "fst (main demo_world demo_env demo_args demo_state) = Inr 0"
    by code_simp
  then have run: "main demo_world demo_env demo_args demo_state = (Inr 0, ?end)"
    by (simp add: prod_eq_iff)
  have gates: "main_gates demo_world demo_env demo_args (files demo_state)
      = Inr (Path ''/uenv/base'', ''base'', ''default'',
             Path ''/uenv/base/env/default/bin/python3.11'', demo_uenv_sp)"
    by code_simp
  have absolute: "\<forall>t r. realpath demo_world t = Inr r \<longrightarrow> take 1 r = ''/''"
    by (auto simp: demo_world_def demo_realpath_def)
  from run gates absolute
    uenv_pth_content [where w = demo_world and s = demo_state and s' = ?end
      and env = demo_env and a = demo_args]
  have c: "\<exists>vsp. read_text (files ?end) (joinpath vsp ''uenv.pth'')
                  = Some (str demo_uenv_sp @ [CHR 0x0A])"
    and d: "take 1 (str demo_uenv_sp) = ''/''"
    by auto
  from a b c have "read_text (files demo_linked)
        (Path ''/work/venv/lib/python3.11/site-packages/uenv.pth'')
     = Some (''/uenv/base/env/default/lib/python3.11/site-packages'' @ [CHR 0x0A]) \<and>
   files (snd (main_link demo_world (Path ''/work/venv'') demo_uenv_sp demo_linked))
     = files demo_linked \<and>
   (\<exists>vsp. read_text (files (snd (main demo_world demo_env demo_args demo_state)))
            (joinpath vsp ''uenv.pth'')
          = Some (''/uenv/base/env/default/lib/python3.11/site-packages'' @ [CHR 0x0A]))"
    by (simp add: pth sp)
  with d show ?thesis by blast
qed

end
